theory Spec2Isabelle
  imports Complex_Main "HOL-Library.AList"
begin

section \<open>Journey data model\<close>

text \<open>
  A leg is the object literal that \<^verbatim>\<open>decode\<close> builds: seven string fields.
  A journey is a JavaScript object whose own keys are \<^verbatim>\<open>leg_1\<close>, \<^verbatim>\<open>leg_2\<close>, ...;
  JavaScript keeps string keys in insertion order and \<^verbatim>\<open>for .. in\<close>,
  \<^verbatim>\<open>Object.keys\<close> and \<^verbatim>\<open>JSON.stringify\<close> follow that order, so a journey is an
  association list. Strings are lists of 8-bit characters (code units below 256).
\<close>

record leg =
  train :: string
  start_stop :: string
  start_time :: string
  start_date :: string
  arrival_stop :: string
  arrival_time :: string
  arrival_date :: string

type_synonym journey = "(string \<times> leg) list"

text \<open>
  The value found under \<^verbatim>\<open>req.body.journey\<close>: the compact wire string sent by the
  contract, or a structured journey object sent by the website.
\<close>

datatype wire = Encoded string | Structured journey

text \<open>
  What a JavaScript call can throw here: a \<^verbatim>\<open>TypeError\<close> of the runtime (a method
  called on a value that has none), the \<^verbatim>\<open>Error('Missing Data')\<close> of the
  retrieve functions, and a failure of an outbound call.
\<close>

datatype error = TypeError | MissingData | UpstreamError

section \<open>Built-in string operations\<close>

text \<open>\<^verbatim>\<open>String.prototype.split\<close> with a one-character separator: the empty string
  gives one empty token, and n separators give n + 1 tokens.\<close>

fun split :: "char \<Rightarrow> string \<Rightarrow> string list" where
  "split sep [] = [[]]"
| "split sep (c # cs) =
     (if c = sep then [] # split sep cs
      else (case split sep cs of [] \<Rightarrow> [[c]] | t # ts \<Rightarrow> (c # t) # ts))"

text \<open>\<^verbatim>\<open>Array.prototype.join\<close> on strings.\<close>

fun join :: "char \<Rightarrow> string list \<Rightarrow> string" where
  "join sep [] = []"
| "join sep [t] = t"
| "join sep (t # u # ts) = t @ sep # join sep (u # ts)"

text \<open>The decimal numeral JavaScript appends in \<^verbatim>\<open>'leg_' + n\<close>.\<close>

definition digit_char :: "nat \<Rightarrow> char" where
  "digit_char d = ''0123456789'' ! (d mod 10)"

function string_of_nat :: "nat \<Rightarrow> string" where
  "string_of_nat n =
     (if n < 10 then [digit_char n] else string_of_nat (n div 10) @ [digit_char (n mod 10)])"
  by pat_completeness auto
termination
  by (relation "measure id") auto

declare string_of_nat.simps [simp del]

definition leg_key :: "nat \<Rightarrow> string" where
  "leg_key n = ''leg_'' @ string_of_nat n"

section \<open>decode\<close>

text \<open>
  The first loop of \<^verbatim>\<open>decode\<close>: \<^verbatim>\<open>for (let i = 0; i < amountLegs; i++)\<close> pushing one
  object per group of seven values. The reads \<^verbatim>\<open>values[j] .. values[j + 6]\<close> are
  list reads; lemma \<open>decode_reads_in_range\<close> below shows that the loop never reads
  past the end of \<^verbatim>\<open>values\<close>.
\<close>

function build_legs :: "string list \<Rightarrow> nat \<Rightarrow> nat \<Rightarrow> leg list \<Rightarrow> leg list" where
  "build_legs values amountLegs i legs =
     (if i < amountLegs then
        (let j = i * 7;
             obj = \<lparr> train = values ! j,
                     start_stop = values ! (j + 1),
                     start_time = values ! (j + 2),
                     start_date = values ! (j + 3),
                     arrival_stop = values ! (j + 4),
                     arrival_time = values ! (j + 5),
                     arrival_date = values ! (j + 6) \<rparr>
         in build_legs values amountLegs (i + 1) (legs @ [obj]))
      else legs)"
  by pat_completeness auto
termination
  by (relation "measure (\<lambda>(values, amountLegs, i, legs). amountLegs - i)") auto

declare build_legs.simps [simp del]

text \<open>
  The second loop: \<^verbatim>\<open>journey['leg_' + (i + 1)] = legs[i]\<close>. Assigning a property
  replaces the value in place when the key exists and appends the key otherwise, which
  is \<open>AList.update\<close>.
\<close>

function number_legs :: "leg list \<Rightarrow> nat \<Rightarrow> nat \<Rightarrow> journey \<Rightarrow> journey" where
  "number_legs legs amountLegs i journey =
     (if i < amountLegs then
        number_legs legs amountLegs (i + 1)
          (AList.update (leg_key (i + 1)) (legs ! i) journey)
      else journey)"
  by pat_completeness auto
termination
  by (relation "measure (\<lambda>(legs, amountLegs, i, journey). amountLegs - i)") auto

declare number_legs.simps [simp del]

text \<open>
  \<^verbatim>\<open>decode(_encoded)\<close>. Called on a value that is not a string,
  \<^verbatim>\<open>_encoded.split\<close> is not a function and the call throws a \<^verbatim>\<open>TypeError\<close>.
\<close>

definition decode :: "wire \<Rightarrow> error + journey" where
  "decode encoded =
     (case encoded of
        Structured obj \<Rightarrow> Inl TypeError
      | Encoded s \<Rightarrow>
          (let values = split (CHR '';'') s in
           if length values mod 7 \<noteq> 0 then Inr []
           else
             (let amountLegs = length values div 7;
                  legs = build_legs values amountLegs 0 []
              in Inr (number_legs legs amountLegs 0 []))))"

text \<open>
  The decoding contract in the words of the design: the tokens are cut into consecutive
  groups of seven, in the field order train, start_stop, start_time, start_date,
  arrival_stop, arrival_time, arrival_date, one leg per group.
\<close>

fun legs_of_tokens :: "string list \<Rightarrow> leg list" where
  "legs_of_tokens (a # b # c # d # e # f # g # rest) =
     \<lparr> train = a, start_stop = b, start_time = c, start_date = d,
       arrival_stop = e, arrival_time = f, arrival_date = g \<rparr> # legs_of_tokens rest"
| "legs_of_tokens _ = []"

definition leg_fields :: "leg \<Rightarrow> string list" where
  "leg_fields l = [train l, start_stop l, start_time l, start_date l,
                   arrival_stop l, arrival_time l, arrival_date l]"

text \<open>
  Modelled from the spec: the encoder is not part of the repository (the contract
  produces the wire string). The encoding format joins the seven fields of each leg,
  in the fixed order, leg after leg, with \<^verbatim>\<open>;\<close>.
\<close>

definition encode :: "journey \<Rightarrow> string" where
  "encode j = join (CHR '';'') (concat (map (\<lambda>(k, l). leg_fields l) j))"

text \<open>The object that \<^verbatim>\<open>decode\<close> builds for the legs at positions \<open>i * 7 .. i * 7 + 6\<close>.\<close>

definition leg_at :: "string list \<Rightarrow> nat \<Rightarrow> leg" where
  "leg_at vs i = \<lparr> train = vs ! (i * 7),
                   start_stop = vs ! (i * 7 + 1),
                   start_time = vs ! (i * 7 + 2),
                   start_date = vs ! (i * 7 + 3),
                   arrival_stop = vs ! (i * 7 + 4),
                   arrival_time = vs ! (i * 7 + 5),
                   arrival_date = vs ! (i * 7 + 6) \<rparr>"

section \<open>Status codes and responses\<close>

definition STATUS_OK :: nat where "STATUS_OK = 0"
definition STATUS_SEV :: nat where "STATUS_SEV = 10"
definition STATUS_TIME :: nat where "STATUS_TIME = 20"
definition STATUS_PROBABILITY :: nat where "STATUS_PROBABILITY = 30"
definition STATUS_MISSING_DELAY :: nat where "STATUS_MISSING_DELAY = 40"
definition STATUS_ERROR :: nat where "STATUS_ERROR = 100"

definition TIME_MIN :: rat where "TIME_MIN = 1"
definition TIME_MAX :: rat where "TIME_MAX = 10"

text \<open>
  The \<^verbatim>\<open>payout\<close> field of a response: the literal \<^verbatim>\<open>0\<close>, one matrix entry, or the
  object with the three tiers. A matrix entry that does not exist is JavaScript's
  \<^verbatim>\<open>undefined\<close>, here \<open>None\<close>. The \<^verbatim>\<open>delay\<close> field is a number, \<open>None\<close> standing
  for \<^verbatim>\<open>NaN\<close>.
\<close>

datatype 'a payout = Zero | Amount "'a option" | PerTier "'a option" "'a option" "'a option"

datatype 'a response =
    PayoutResponse nat "'a payout"
  | DelayResponse nat "rat option"

text \<open>
  What a request handler does: it sends a response, or an exception leaves the
  \<^verbatim>\<open>async\<close> handler (no \<^verbatim>\<open>try\<close> around the throwing call), so that its promise is
  rejected and no response is sent.
\<close>

datatype 'r outcome = Sent 'r | Unhandled error

section \<open>Rail replacement check\<close>

text \<open>
  \<^verbatim>\<open>String.prototype.toLowerCase\<close> on code units below 256: the letters A to Z and
  the capital letters of the Latin-1 block (0xC0 to 0xDE without the multiplication
  sign 0xD7) move up by 32; every other character is kept.
\<close>

definition toLowerCase_char :: "char \<Rightarrow> char" where
  "toLowerCase_char c =
     (let n = (of_char c :: nat) in
      if (65 \<le> n \<and> n \<le> 90) \<or> (192 \<le> n \<and> n \<le> 222 \<and> n \<noteq> 215)
      then char_of (n + 32) else c)"

definition toLowerCase :: "string \<Rightarrow> string" where
  "toLowerCase s = map toLowerCase_char s"

fun startsWith :: "string \<Rightarrow> string \<Rightarrow> bool" where
  "startsWith s [] = True"
| "startsWith [] (x # xs) = False"
| "startsWith (c # cs) (x # xs) = (c = x \<and> startsWith cs xs)"

text \<open>\<^verbatim>\<open>String.prototype.includes\<close>: the search string occurs at some position.\<close>

fun string_includes :: "string \<Rightarrow> string \<Rightarrow> bool" where
  "string_includes [] sub = (sub = [])"
| "string_includes (c # cs) sub = (startsWith (c # cs) sub \<or> string_includes cs sub)"

text \<open>
  \<^verbatim>\<open>checkForRps\<close>: the \<^verbatim>\<open>for (i in journey)\<close> loop visits the keys in insertion
  order; \<^verbatim>\<open>journey[i]\<close> is the leg stored under the key (each key occurs once in an
  object); the loop returns at the first leg whose lowered train name includes "bus".
\<close>

fun checkForRps :: "journey \<Rightarrow> bool" where
  "checkForRps [] = False"
| "checkForRps ((i, leg) # rest) =
     (let name = toLowerCase (train leg) in
      if string_includes name ''bus'' then True else checkForRps rest)"

text \<open>
  The design's wording of the same check: a string contains "bus" case-insensitively
  when three consecutive characters are b or B, u or U, s or S.
\<close>

definition contains_bus :: "string \<Rightarrow> bool" where
  "contains_bus s \<longleftrightarrow>
     (\<exists>pre x y z post. s = pre @ [x, y, z] @ post
        \<and> x \<in> {CHR ''b'', CHR ''B''} \<and> y \<in> {CHR ''u'', CHR ''U''} \<and> z \<in> {CHR ''s'', CHR ''S''})"

section \<open>Dates\<close>

text \<open>
  A \<^verbatim>\<open>Date\<close> object is its time value: milliseconds since the epoch, or \<open>None\<close> for
  the \<^verbatim>\<open>NaN\<close> of an invalid date. Parsing a date string and reading or setting the
  local day of the month, hours and minutes depend on the engine and on the time zone
  of the server, so these built-ins are parameters. A string argument that is
  \<^verbatim>\<open>undefined\<close> is \<open>None\<close>; \<^verbatim>\<open>getDate\<close> returns \<^verbatim>\<open>NaN\<close> (\<open>None\<close>) for an invalid
  date, and \<^verbatim>\<open>setDate\<close> takes a number or \<^verbatim>\<open>NaN\<close>.
\<close>

type_synonym timevalue = "int option"

record dateapi =
  newDate :: "string \<Rightarrow> timevalue"
  setHours :: "timevalue \<Rightarrow> string option \<Rightarrow> timevalue"
  setMinutes :: "timevalue \<Rightarrow> string option \<Rightarrow> timevalue"
  getDate :: "timevalue \<Rightarrow> int option"
  setDate :: "timevalue \<Rightarrow> int option \<Rightarrow> timevalue"

text \<open>Reading an array element: \<^verbatim>\<open>undefined\<close> past the end.\<close>

definition element :: "'a list \<Rightarrow> nat \<Rightarrow> 'a option" where
  "element xs i = (if i < length xs then Some (xs ! i) else None)"

text \<open>
  \<^verbatim>\<open>retrieveArrivalDate\<close>: \<^verbatim>\<open>Object.keys(_journey).length\<close> is the number of keys;
  the leg \<^verbatim>\<open>'leg_' + amountLegs\<close> is looked up by key and the function throws
  \<^verbatim>\<open>Error('Missing Data')\<close> when there is none.
\<close>

definition retrieveArrivalDate :: "dateapi \<Rightarrow> journey \<Rightarrow> error + timevalue" where
  "retrieveArrivalDate D journey =
     (let amountLegs = length journey in
      case map_of journey (leg_key amountLegs) of
        None \<Rightarrow> Inl MissingData
      | Some arrivalLeg \<Rightarrow>
          (let arrivalDate = newDate D (arrival_date arrivalLeg);
               arrivalTime = arrival_time arrivalLeg;
               arrivalDate = setHours D arrivalDate (element (split (CHR '':'') arrivalTime) 0);
               arrivalDate = setMinutes D arrivalDate (element (split (CHR '':'') arrivalTime) 1)
           in Inr arrivalDate))"

definition retrieveDepartureDate :: "dateapi \<Rightarrow> journey \<Rightarrow> error + timevalue" where
  "retrieveDepartureDate D journey =
     (case map_of journey ''leg_1'' of
        None \<Rightarrow> Inl MissingData
      | Some departureLeg \<Rightarrow>
          (let departureDate = newDate D (start_date departureLeg);
               departureTime = start_time departureLeg;
               departureDate = setHours D departureDate (element (split (CHR '':'') departureTime) 0);
               departureDate = setMinutes D departureDate (element (split (CHR '':'') departureTime) 1)
           in Inr departureDate))"

section \<open>Timeframe check\<close>

text \<open>
  \<^verbatim>\<open>checkTimeframe\<close>, with \<^verbatim>\<open>Date.now()\<close> as the parameter \<open>now\<close>. The function
  returns \<^verbatim>\<open>true\<close> or falls off its end, returning \<^verbatim>\<open>undefined\<close> (\<open>None\<close>). The
  quotient is a rational number; an invalid departure date makes it \<^verbatim>\<open>NaN\<close>, for
  which both comparisons are false. (The double quotient of the source compares with
  1 and 10 as the exact quotient does: the time values are integers below \<open>2^53\<close>, and a
  quotient different from 1 or 10 differs from it by at least \<open>1 / 86400000\<close>.)
\<close>

definition checkTimeframe :: "dateapi \<Rightarrow> int \<Rightarrow> journey \<Rightarrow> error + bool option" where
  "checkTimeframe D now journey =
     (case retrieveDepartureDate D journey of
        Inl e \<Rightarrow> Inl e
      | Inr None \<Rightarrow> Inr None
      | Inr (Some departure) \<Rightarrow>
          (let diff = (of_int (departure - now) :: rat) / (1000 * 60 * 60 * 24) in
           if diff \<le> TIME_MIN \<or> diff \<ge> TIME_MAX then Inr (Some True) else Inr None))"

text \<open>The test \<^verbatim>\<open>if (timeframe)\<close>: \<^verbatim>\<open>undefined\<close> is falsy.\<close>

definition truthy :: "bool option \<Rightarrow> bool" where
  "truthy v = (case v of None \<Rightarrow> False | Some b \<Rightarrow> b)"

section \<open>Delay\<close>

text \<open>
  \<^verbatim>\<open>calculateDelayMinutes\<close>. When the observed instant is more than four hours before
  the scheduled one, \<^verbatim>\<open>_realDate.setDate(_realDate.getDate() + 1)\<close> moves the observed
  date to the next day of the local calendar; \<^verbatim>\<open>NaN + 1\<close> is \<^verbatim>\<open>NaN\<close>. With an
  invalid date the comparison is false and the difference is \<^verbatim>\<open>NaN\<close>. The result is
  a rational number of minutes.
\<close>

definition calculateDelayMinutes :: "dateapi \<Rightarrow> timevalue \<Rightarrow> timevalue \<Rightarrow> rat option" where
  "calculateDelayMinutes D scheduledDate realDate =
     (case (scheduledDate, realDate) of
        (Some s, Some r) \<Rightarrow>
          (let realDate =
                 (if r < s - 4 * 60 * 60 * 1000
                  then setDate D realDate (map_option (\<lambda>date. date + 1) (getDate D realDate))
                  else realDate)
           in case realDate of
                None \<Rightarrow> None
              | Some r' \<Rightarrow> (let diff = r' - s in Some (of_int diff / 1000 / 60)))
      | _ \<Rightarrow> None)"

text \<open>Lines 257 to 262 of the handler: \<^verbatim>\<open>if (delay < 0) delay = 0\<close>; \<^verbatim>\<open>NaN < 0\<close> is false.\<close>

definition clampDelay :: "rat option \<Rightarrow> rat option" where
  "clampDelay delay = (case delay of None \<Rightarrow> None | Some d \<Rightarrow> if d < 0 then Some 0 else Some d)"

section \<open>Validation\<close>

text \<open>
  \<^verbatim>\<open>validator.js\<close>. The Joi schema of a leg: \<^verbatim>\<open>Joi.string()\<close> rejects the empty
  string; the time pattern is \<^verbatim>\<open>/^([0-2][0-9])\:([0-5][0-9])$/\<close> and the date
  pattern is \<^verbatim>\<open>/^(2[0-9]{3})\-([0-1][0-9])\-([0-3][0-9])$/\<close>. The result lists the
  fields in error (\<^verbatim>\<open>abortEarly: false\<close>); the handlers only test whether any message
  was collected.
\<close>

definition is_digit :: "char \<Rightarrow> bool" where
  "is_digit c \<longleftrightarrow> c \<in> set ''0123456789''"

definition time_pattern :: "string \<Rightarrow> bool" where
  "time_pattern s =
     (case s of
        [a, b, c, d, e] \<Rightarrow>
          a \<in> set ''012'' \<and> is_digit b \<and> c = CHR '':'' \<and> d \<in> set ''012345'' \<and> is_digit e
      | _ \<Rightarrow> False)"

definition date_pattern :: "string \<Rightarrow> bool" where
  "date_pattern s =
     (case s of
        [a, b, c, d, e, f, g, h, i, j] \<Rightarrow>
          a = CHR ''2'' \<and> is_digit b \<and> is_digit c \<and> is_digit d \<and> e = CHR ''-''
          \<and> f \<in> set ''01'' \<and> is_digit g \<and> h = CHR ''-'' \<and> i \<in> set ''0123'' \<and> is_digit j
      | _ \<Rightarrow> False)"

definition validateLeg :: "leg \<Rightarrow> string list" where
  "validateLeg l =
     (if train l = [] then [''train''] else [])
   @ (if start_stop l = [] then [''start_stop''] else [])
   @ (if time_pattern (start_time l) then [] else [''start_time''])
   @ (if date_pattern (start_date l) then [] else [''start_date''])
   @ (if arrival_stop l = [] then [''arrival_stop''] else [])
   @ (if time_pattern (arrival_time l) then [] else [''arrival_time''])
   @ (if date_pattern (arrival_date l) then [] else [''arrival_date''])"

text \<open>The \<^verbatim>\<open>type\<close> field of a request body: a string, or absent (\<open>None\<close>).\<close>

definition validateType :: "string option \<Rightarrow> string list" where
  "validateType t =
     (case t of
        None \<Rightarrow> [''type'']
      | Some s \<Rightarrow> if s \<in> set [''small'', ''medium'', ''large'', ''all''] then [] else [''type''])"

text \<open>The loop \<^verbatim>\<open>for (let leg in journey)\<close> collecting the messages of every leg.\<close>

fun legMessages :: "journey \<Rightarrow> string list" where
  "legMessages [] = []"
| "legMessages ((k, leg) # rest) = validateLeg leg @ legMessages rest"

section \<open>Fingerprint of a journey\<close>

text \<open>
  \<^verbatim>\<open>JSON.stringify\<close> of a journey. Keys come out in insertion order. A leg is
  written with its fields in the order of the object literal of \<^verbatim>\<open>decode\<close>. Strings
  are quoted as ECMAScript's QuoteJSONString does: the quote and the backslash are
  escaped, the control characters below 0x20 become \<^verbatim>\<open>\b \t \n \f \r\<close> or
  \<^verbatim>\<open>\u00XX\<close>, every other character stands for itself.
\<close>

definition hex_digit :: "nat \<Rightarrow> char" where
  "hex_digit d = ''0123456789abcdef'' ! (d mod 16)"

definition quote_char :: "char \<Rightarrow> string" where
  "quote_char c =
     (let n = (of_char c :: nat) in
      if n = 8 then [CHR 0x5C, CHR ''b'']
      else if n = 9 then [CHR 0x5C, CHR ''t'']
      else if n = 10 then [CHR 0x5C, CHR ''n'']
      else if n = 12 then [CHR 0x5C, CHR ''f'']
      else if n = 13 then [CHR 0x5C, CHR ''r'']
      else if n = 34 then [CHR 0x5C, CHR 0x22]
      else if n = 92 then [CHR 0x5C, CHR 0x5C]
      else if n < 32 then [CHR 0x5C, CHR ''u'', CHR ''0'', CHR ''0'', hex_digit (n div 16), hex_digit (n mod 16)]
      else [c])"

definition quote :: "string \<Rightarrow> string" where
  "quote s = CHR 0x22 # concat (map quote_char s) @ [CHR 0x22]"

definition member :: "string \<Rightarrow> string \<Rightarrow> string" where
  "member k v = quote k @ CHR '':'' # v"

definition stringify_leg :: "leg \<Rightarrow> string" where
  "stringify_leg l =
     CHR ''{'' # join (CHR '','')
       [member ''train'' (quote (train l)),
        member ''start_stop'' (quote (start_stop l)),
        member ''start_time'' (quote (start_time l)),
        member ''start_date'' (quote (start_date l)),
        member ''arrival_stop'' (quote (arrival_stop l)),
        member ''arrival_time'' (quote (arrival_time l)),
        member ''arrival_date'' (quote (arrival_date l))] @ ''}''"

definition JSON_stringify :: "journey \<Rightarrow> string" where
  "JSON_stringify journey =
     CHR ''{'' # join (CHR '','') (map (\<lambda>(k, l). member k (stringify_leg l)) journey) @ ''}''"

section \<open>Probability\<close>

text \<open>
  The request sent to the prediction service. The departure instant is sent formatted
  by \<^verbatim>\<open>toIsoString\<close>; the text of the request plays no role below and the instant
  stands for it.
\<close>

record predict_request =
  departure :: string
  arrival :: string
  departureDate :: timevalue

text \<open>
  \<^verbatim>\<open>Number.prototype.toFixed(2)\<close>: the nearest number with two decimals, the larger
  one of two equally near; a negative number is rounded as its absolute value. The
  source keeps the decimal string; its numeric value is kept here, which is what the
  comparison with 40 and \<^verbatim>\<open>Math.ceil\<close> convert the string to.
\<close>

definition toFixed2 :: "rat \<Rightarrow> rat" where
  "toFixed2 x =
     (if x < 0 then - (of_int \<lfloor>- x * 100 + 1 / 2\<rfloor> / 100)
      else of_int \<lfloor>x * 100 + 1 / 2\<rfloor> / 100)"

text \<open>
  \<^verbatim>\<open>requestProbability\<close>. Reading \<^verbatim>\<open>.start_stop\<close> of a missing \<^verbatim>\<open>leg_1\<close> or
  \<^verbatim>\<open>.arrival_stop\<close> of a missing last leg throws a \<^verbatim>\<open>TypeError\<close>. The prediction
  service is the parameter \<open>predict\<close>: it fails (a status other than 200, or no
  answer) or answers with the fraction \<^verbatim>\<open>delayProbability\<close>.
\<close>

definition requestProbability ::
  "dateapi \<Rightarrow> (predict_request \<Rightarrow> error + rat) \<Rightarrow> journey \<Rightarrow> error + rat" where
  "requestProbability D predict requestBody =
     (let amountLegs = length requestBody;
          arrivalLeg = map_of requestBody (leg_key amountLegs)
      in case map_of requestBody ''leg_1'' of
           None \<Rightarrow> Inl TypeError
         | Some leg_1 \<Rightarrow>
             (case arrivalLeg of
                None \<Rightarrow> Inl TypeError
              | Some lastLeg \<Rightarrow>
                  (case retrieveDepartureDate D requestBody of
                     Inl e \<Rightarrow> Inl e
                   | Inr dep \<Rightarrow>
                       (case predict \<lparr> departure = start_stop leg_1,
                                       arrival = arrival_stop lastLeg,
                                       departureDate = dep \<rparr> of
                          Inl e \<Rightarrow> Inl e
                        | Inr delayProbability \<Rightarrow> Inr (toFixed2 (delayProbability * 100))))))"

section \<open>Request handlers\<close>

text \<open>
  The environment of a \<^verbatim>\<open>/payouts\<close> request: the date built-ins, the clock, the
  prediction service, the hash function and the payout matrix. \<^verbatim>\<open>sha256\<close> comes from
  the package js-sha256, which is not part of the sources: it is a parameter, a function
  from strings to strings. The cache is the state: hash to stored
  probability, as \<^verbatim>\<open>cache.get\<close> sees it at the time of the request.

  Modelled from the spec: \<^verbatim>\<open>payout.json\<close> is not part of the sources. The matrix
  maps a tier (small, medium, large) and an integer percentage to an amount; a row the
  file does not have reads as \<^verbatim>\<open>undefined\<close>.
\<close>

record 'a env =
  dates :: dateapi
  now :: int
  predict :: "predict_request \<Rightarrow> error + rat"
  sha256 :: "string \<Rightarrow> string"
  PAYOUTS :: "string \<Rightarrow> int \<Rightarrow> 'a option"

type_synonym cache = "string \<rightharpoonup> rat"

text \<open>The body of a \<^verbatim>\<open>/payouts\<close> request.\<close>

record payouts_body =
  btype :: "string option"
  bjourney :: wire

text \<open>Line 147: the cache key, \<^verbatim>\<open>sha256(JSON.stringify(journey))\<close>.\<close>

definition fingerprint :: "(string \<Rightarrow> string) \<Rightarrow> journey \<Rightarrow> string" where
  "fingerprint hash journey = hash (JSON_stringify journey)"

text \<open>
  Lines 146 to 162: the hash of the serialised journey is looked up; on a miss the
  probability is requested and stored. A stored probability is a non-empty string and
  so always truthy in \<^verbatim>\<open>if (entry)\<close>. A failed request is caught.
\<close>

definition lookupOrRequest :: "'a env \<Rightarrow> cache \<Rightarrow> journey \<Rightarrow> error + rat \<times> cache" where
  "lookupOrRequest env cache journey =
     (let hash = fingerprint (sha256 env) journey in
      case cache hash of
        Some entry \<Rightarrow> Inr (entry, cache)
      | None \<Rightarrow>
          (case requestProbability (dates env) (predict env) journey of
             Inl e \<Rightarrow> Inl e
           | Inr probability \<Rightarrow> Inr (probability, cache(hash \<mapsto> probability))))"

text \<open>The property key that \<^verbatim>\<open>PAYOUTS[type]\<close> reads.\<close>

definition property_key :: "string option \<Rightarrow> string" where
  "property_key t = (case t of None \<Rightarrow> ''undefined'' | Some s \<Rightarrow> s)"

text \<open>Lines 169 to 195: the cap on the probability, then the matrix lookup.\<close>

definition resolvePayout :: "(string \<Rightarrow> int \<Rightarrow> 'a option) \<Rightarrow> string option \<Rightarrow> rat \<Rightarrow> 'a response" where
  "resolvePayout matrix type probability =
     (if probability > 40 then PayoutResponse STATUS_PROBABILITY Zero
      else
        (let probability = \<lceil>probability\<rceil>;
             payout =
               (if type = Some ''all''
                then PerTier (matrix ''small'' probability)
                             (matrix ''medium'' probability)
                             (matrix ''large'' probability)
                else Amount (matrix (property_key type) probability))
         in PayoutResponse STATUS_OK payout))"

text \<open>
  Lines 100 to 196, for a journey that is an object. The notification
  \<^verbatim>\<open>logRequest\<close> is a detached asynchronous call and is left out.
\<close>

definition payouts_pipeline ::
  "'a env \<Rightarrow> cache \<Rightarrow> string option \<Rightarrow> journey \<Rightarrow> 'a response outcome \<times> cache" where
  "payouts_pipeline env cache type journey =
     (if journey = [] then (Sent (PayoutResponse STATUS_ERROR Zero), cache)
      else
        (let messages = legMessages journey @ validateType type in
         if messages \<noteq> [] then (Sent (PayoutResponse STATUS_ERROR Zero), cache)
         else
           (case checkTimeframe (dates env) (now env) journey of
              Inl e \<Rightarrow> (Unhandled e, cache)
            | Inr timeframe \<Rightarrow>
                if truthy timeframe then (Sent (PayoutResponse STATUS_TIME Zero), cache)
                else if checkForRps journey then (Sent (PayoutResponse STATUS_SEV Zero), cache)
                else
                  (case lookupOrRequest env cache journey of
                     Inl e \<Rightarrow> (Sent (PayoutResponse STATUS_ERROR Zero), cache)
                   | Inr (probability, cache') \<Rightarrow>
                       (Sent (resolvePayout (PAYOUTS env) type probability), cache')))))"

text \<open>
  Lines 87 to 98: which value becomes \<^verbatim>\<open>journey\<close>. The comparison looks at
  \<^verbatim>\<open>req.body.type\<close> only.
\<close>

definition selectJourney :: "payouts_body \<Rightarrow> error + wire" where
  "selectJourney body =
     (if btype body \<noteq> Some ''all''
      then (case decode (bjourney body) of Inl e \<Rightarrow> Inl e | Inr journey \<Rightarrow> Inr (Structured journey))
      else Inr (bjourney body))"

text \<open>
  The handler of \<^verbatim>\<open>POST /payouts\<close>. When the selected journey is a string (type
  \<^verbatim>\<open>all\<close> with a string under \<^verbatim>\<open>journey\<close>), the emptiness test is false
  (\<^verbatim>\<open>constructor\<close> is \<^verbatim>\<open>String\<close>), the loop validates each character, which is not a
  leg object, so a non-empty string ends in the error response; for the empty string no
  message is collected and \<^verbatim>\<open>checkTimeframe\<close> throws, as the string has no
  \<^verbatim>\<open>leg_1\<close>.
\<close>

definition payouts_handler ::
  "'a env \<Rightarrow> cache \<Rightarrow> payouts_body \<Rightarrow> 'a response outcome \<times> cache" where
  "payouts_handler env cache body =
     (case selectJourney body of
        Inl e \<Rightarrow> (Unhandled e, cache)
      | Inr (Structured journey) \<Rightarrow> payouts_pipeline env cache (btype body) journey
      | Inr (Encoded s) \<Rightarrow>
          if s \<noteq> [] then (Sent (PayoutResponse STATUS_ERROR Zero), cache)
          else (Unhandled MissingData, cache))"

text \<open>
  The body of a \<^verbatim>\<open>/delay\<close> request: an object with a \<^verbatim>\<open>journey\<close> field, or the
  journey object itself. The tracking service is the parameter \<open>fetch\<close>: it fails
  or answers with the observed journey.
\<close>

datatype delay_body = WithJourney wire | Bare journey

definition delay_handler ::
  "dateapi \<Rightarrow> (journey \<Rightarrow> error + journey) \<Rightarrow> delay_body \<Rightarrow> 'a response outcome" where
  "delay_handler D fetch body =
     (case (case body of WithJourney encodedJourney \<Rightarrow> decode encodedJourney
                       | Bare obj \<Rightarrow> Inr obj) of
        Inl e \<Rightarrow> Unhandled e
      | Inr journey \<Rightarrow>
          if journey = [] then Sent (DelayResponse STATUS_ERROR (Some 0))
          else if legMessages journey \<noteq> [] then Sent (DelayResponse STATUS_ERROR (Some 0))
          else
            (case retrieveArrivalDate D journey of
               Inl e \<Rightarrow> Unhandled e
             | Inr scheduledArrivalDate \<Rightarrow>
                 (case fetch journey of
                    Inl e \<Rightarrow> Unhandled e
                  | Inr response \<Rightarrow>
                      (case retrieveArrivalDate D response of
                         Inl e \<Rightarrow> Unhandled e
                       | Inr realArrivalDate \<Rightarrow>
                           Sent (DelayResponse STATUS_OK
                                   (clampDelay (calculateDelayMinutes D scheduledArrivalDate
                                                  realArrivalDate)))))))"

section \<open>A server running in UTC\<close>

text \<open>
  The date built-ins of a server whose local time is UTC, for running the functions on
  concrete journeys: a date string \<^verbatim>\<open>YYYY-MM-DD\<close> of the Gregorian calendar is
  midnight UTC of that day, any other string an invalid date here; \<^verbatim>\<open>setHours\<close> and
  \<^verbatim>\<open>setMinutes\<close> replace the hour and the minute of the time value, their argument
  being a string of digits.
\<close>

fun digits_value :: "string \<Rightarrow> nat option" where
  "digits_value [] = None"
| "digits_value s =
     (if list_all is_digit s
      then Some (foldl (\<lambda>acc c. acc * 10 + (of_char c - 48)) 0 s) else None)"

definition days_from_civil :: "int \<Rightarrow> int \<Rightarrow> int \<Rightarrow> int" where
  "days_from_civil y m d =
     (let y' = (if m \<le> 2 then y - 1 else y);
          era = y' div 400;
          yoe = y' - era * 400;
          doy = (153 * (if m > 2 then m - 3 else m + 9) + 2) div 5 + d - 1;
          doe = yoe * 365 + yoe div 4 - yoe div 100 + doy
      in era * 146097 + doe - 719468)"

definition days_in_month :: "int \<Rightarrow> int \<Rightarrow> int" where
  "days_in_month y m =
     (if m = 2 then (if y mod 4 = 0 \<and> (y mod 100 \<noteq> 0 \<or> y mod 400 = 0) then 29 else 28)
      else if m \<in> {4, 6, 9, 11} then 30 else 31)"

definition utc_newDate :: "string \<Rightarrow> timevalue" where
  "utc_newDate s =
     (case (digits_value (take 4 s), digits_value (take 2 (drop 5 s)), digits_value (drop 8 s)) of
        (Some y, Some m, Some d) \<Rightarrow>
          if length s = 10 \<and> s ! 4 = CHR ''-'' \<and> s ! 7 = CHR ''-''
             \<and> 1 \<le> m \<and> m \<le> 12 \<and> 1 \<le> d \<and> int d \<le> days_in_month (int y) (int m)
          then Some (days_from_civil (int y) (int m) (int d) * 86400000)
          else None
      | _ \<Rightarrow> None)"

definition utc_setHours :: "timevalue \<Rightarrow> string option \<Rightarrow> timevalue" where
  "utc_setHours t arg =
     (case (t, arg) of
        (Some tv, Some a) \<Rightarrow>
          (case digits_value a of
             Some h \<Rightarrow> Some (tv - tv mod 86400000 + int h * 3600000 + tv mod 3600000)
           | None \<Rightarrow> None)
      | _ \<Rightarrow> None)"

definition utc_setMinutes :: "timevalue \<Rightarrow> string option \<Rightarrow> timevalue" where
  "utc_setMinutes t arg =
     (case (t, arg) of
        (Some tv, Some a) \<Rightarrow>
          (case digits_value a of
             Some m \<Rightarrow> Some (tv - tv mod 3600000 + int m * 60000 + tv mod 60000)
           | None \<Rightarrow> None)
      | _ \<Rightarrow> None)"

text \<open>
  The proleptic Gregorian calendar in cycles of 400 years (146097 days) that start on
  1 March: the position of a day in its year (counted from 1 March, from 0), and the day
  number (days since the epoch) of the first day of the month that holds day \<open>n\<close>.
  \<^verbatim>\<open>getDate\<close> is ECMAScript's \<^verbatim>\<open>DateFromTime\<close>: the position of the day in its
  month, counted from 1. \<^verbatim>\<open>setDate(dt)\<close> is
  \<^verbatim>\<open>MakeDate(MakeDay(year, month, dt), TimeWithinDay(t))\<close>: the day \<open>dt - 1\<close> days after
  the first of the month, at the same time of day.
\<close>

definition day_of_year :: "int \<Rightarrow> int" where
  "day_of_year doe =
     (let yoe = (doe - doe div 1460 + doe div 36524 - doe div 146096) div 365
      in doe - (365 * yoe + yoe div 4 - yoe div 100))"

definition month_start :: "int \<Rightarrow> int" where
  "month_start n =
     (let doy = day_of_year ((n + 719468) mod 146097)
      in n - (doy - (153 * ((5 * doy + 2) div 153) + 2) div 5))"

definition DateFromTime :: "int \<Rightarrow> int" where
  "DateFromTime t = t div 86400000 - month_start (t div 86400000) + 1"

definition with_date :: "int \<Rightarrow> int \<Rightarrow> int" where
  "with_date t dt = (month_start (t div 86400000) + dt - 1) * 86400000 + t mod 86400000"

definition utc_getDate :: "timevalue \<Rightarrow> int option" where
  "utc_getDate t = (case t of Some tv \<Rightarrow> Some (DateFromTime tv) | None \<Rightarrow> None)"

definition utc_setDate :: "timevalue \<Rightarrow> int option \<Rightarrow> timevalue" where
  "utc_setDate t arg =
     (case (t, arg) of (Some tv, Some dt) \<Rightarrow> Some (with_date tv dt) | _ \<Rightarrow> None)"

definition utc :: dateapi where
  "utc = \<lparr> newDate = utc_newDate, setHours = utc_setHours, setMinutes = utc_setMinutes,
           getDate = utc_getDate, setDate = utc_setDate \<rparr>"

section \<open>A server in a time zone with clock changes\<close>

text \<open>
  The date built-ins of a server whose local time is \<open>offset t\<close> milliseconds ahead of
  UTC at the instant \<open>t\<close>. \<^verbatim>\<open>LocalTime(t)\<close> adds the offset. \<^verbatim>\<open>UTC(t)\<close> reads a local
  time back: with the offset in force before a clock change when the local time occurs
  twice or not at all, as ECMAScript prescribes; the offsets a day before and a day
  after stand for the offsets before and after the change, so clock changes are taken
  to be more than a day apart. The setters work on the local time and read the result
  back. A date string \<^verbatim>\<open>YYYY-MM-DD\<close> is midnight UTC in every zone.
\<close>

definition LocalTime :: "(int \<Rightarrow> int) \<Rightarrow> int \<Rightarrow> int" where
  "LocalTime offset t = t + offset t"

definition UTC :: "(int \<Rightarrow> int) \<Rightarrow> int \<Rightarrow> int" where
  "UTC offset t =
     (let before = offset (t - 86400000);
          after = offset (t + 86400000)
      in if offset (t - before) = before then t - before
         else if offset (t - after) = after then t - after
         else t - before)"

definition with_hours :: "int \<Rightarrow> int \<Rightarrow> int" where
  "with_hours t h = t - t mod 86400000 + h * 3600000 + t mod 3600000"

definition with_minutes :: "int \<Rightarrow> int \<Rightarrow> int" where
  "with_minutes t m = t - t mod 3600000 + m * 60000 + t mod 60000"

definition zone_setHours :: "(int \<Rightarrow> int) \<Rightarrow> timevalue \<Rightarrow> string option \<Rightarrow> timevalue" where
  "zone_setHours offset t arg =
     (case (t, arg) of
        (Some tv, Some a) \<Rightarrow>
          (case digits_value a of
             Some h \<Rightarrow> Some (UTC offset (with_hours (LocalTime offset tv) (int h)))
           | None \<Rightarrow> None)
      | _ \<Rightarrow> None)"

definition zone_setMinutes :: "(int \<Rightarrow> int) \<Rightarrow> timevalue \<Rightarrow> string option \<Rightarrow> timevalue" where
  "zone_setMinutes offset t arg =
     (case (t, arg) of
        (Some tv, Some a) \<Rightarrow>
          (case digits_value a of
             Some m \<Rightarrow> Some (UTC offset (with_minutes (LocalTime offset tv) (int m)))
           | None \<Rightarrow> None)
      | _ \<Rightarrow> None)"

definition zone_getDate :: "(int \<Rightarrow> int) \<Rightarrow> timevalue \<Rightarrow> int option" where
  "zone_getDate offset t =
     (case t of Some tv \<Rightarrow> Some (DateFromTime (LocalTime offset tv)) | None \<Rightarrow> None)"

definition zone_setDate :: "(int \<Rightarrow> int) \<Rightarrow> timevalue \<Rightarrow> int option \<Rightarrow> timevalue" where
  "zone_setDate offset t arg =
     (case (t, arg) of
        (Some tv, Some dt) \<Rightarrow> Some (UTC offset (with_date (LocalTime offset tv) dt))
      | _ \<Rightarrow> None)"

definition zone :: "(int \<Rightarrow> int) \<Rightarrow> dateapi" where
  "zone offset =
     \<lparr> newDate = utc_newDate, setHours = zone_setHours offset,
       setMinutes = zone_setMinutes offset, getDate = zone_getDate offset,
       setDate = zone_setDate offset \<rparr>"

text \<open>
  Central European Time in 2030: one hour ahead of UTC, two hours from 31 March
  01:00 UTC (1901149200000) until 27 October 01:00 UTC (1919293200000).
\<close>

definition berlin_2030 :: "int \<Rightarrow> int" where
  "berlin_2030 t = (if 1901149200000 \<le> t \<and> t < 1919293200000 then 7200000 else 3600000)"

section \<open>Properties of decode\<close>

lemma split_ne: "split sep s \<noteq> []"
  by (induction s) (auto split: list.splits)

lemma build_legs_eq:
  "build_legs vs n i legs = legs @ map (leg_at vs) [i..<n]"
proof (induction vs n i legs rule: build_legs.induct)
  case (1 vs amountLegs i legs)
  show ?case
  proof (cases "i < amountLegs")
    case True
    then show ?thesis
      using 1 by (subst build_legs.simps) (simp add: Let_def upt_conv_Cons leg_at_def)
  next
    case False
    then show ?thesis by (subst build_legs.simps) simp
  qed
qed

lemma leg_at_Cons7:
  "leg_at (a # b # c # d # e # f # g # rest) (Suc i) = leg_at rest i"
  by (simp add: leg_at_def add.commute)

lemma map_leg_at_chunks:
  "length vs = 7 * n \<Longrightarrow> map (leg_at vs) [0..<n] = legs_of_tokens vs"
proof (induction n arbitrary: vs)
  case 0
  then show ?case by simp
next
  case (Suc m)
  from Suc.prems have "length vs = Suc (Suc (Suc (Suc (Suc (Suc (Suc (7 * m)))))))" by simp
  then obtain a b c d e f g rest
    where vs: "vs = a # b # c # d # e # f # g # rest" and len: "length rest = 7 * m"
    by (auto simp: length_Suc_conv)
  have "map (leg_at vs) [0..<Suc m] = leg_at vs 0 # map (leg_at vs) (map Suc [0..<m])"
    by (simp only: upt_conv_Cons[of 0 "Suc m"] map_Suc_upt[symmetric] list.map zero_less_Suc if_True)
  also have "\<dots> = leg_at vs 0 # map (leg_at rest) [0..<m]"
    by (simp add: vs leg_at_Cons7 comp_def)
  also have "\<dots> = legs_of_tokens vs"
  proof -
    have "leg_at vs 0 =
      \<lparr> train = a, start_stop = b, start_time = c, start_date = d,
        arrival_stop = e, arrival_time = f, arrival_date = g \<rparr>"
      by (simp add: leg_at_def vs)
    then show ?thesis using Suc.IH[OF len] by (simp add: vs)
  qed
  finally show ?case .
qed

lemma string_of_nat_ne: "string_of_nat n \<noteq> []"
  by (subst string_of_nat.simps) simp

lemma string_of_nat_small: "n < 10 \<Longrightarrow> string_of_nat n = [digit_char n]"
  by (subst string_of_nat.simps) simp

lemma string_of_nat_big:
  "\<not> n < 10 \<Longrightarrow> string_of_nat n = string_of_nat (n div 10) @ [digit_char (n mod 10)]"
  by (subst string_of_nat.simps) simp

lemma digit_char_inj: "a < 10 \<Longrightarrow> b < 10 \<Longrightarrow> digit_char a = digit_char b \<Longrightarrow> a = b"
proof -
  assume a: "a < 10" and b: "b < 10" and e: "digit_char a = digit_char b"
  have d: "distinct ''0123456789''" by simp
  from a b e have "''0123456789'' ! a = ''0123456789'' ! b" by (simp add: digit_char_def)
  with d a b show "a = b" by (simp add: nth_eq_iff_index_eq)
qed

lemma string_of_nat_inj: "string_of_nat n = string_of_nat m \<Longrightarrow> n = m"
proof (induction n arbitrary: m rule: string_of_nat.induct)
  case (1 n)
  show ?case
  proof (cases "n < 10")
    case n: True
    show ?thesis
    proof (cases "m < 10")
      case True
      with n 1(2) show ?thesis
        by (simp add: string_of_nat_small digit_char_inj)
    next
      case False
      with n 1(2) show ?thesis
        using string_of_nat_ne[of "m div 10"]
        by (auto simp add: string_of_nat_small string_of_nat_big)
    qed
  next
    case n: False
    show ?thesis
    proof (cases "m < 10")
      case True
      with n 1(2) show ?thesis
        using string_of_nat_ne[of "n div 10"]
        by (auto simp add: string_of_nat_small string_of_nat_big)
    next
      case False
      with n 1(2) have e: "string_of_nat (n div 10) = string_of_nat (m div 10)"
        and d: "digit_char (n mod 10) = digit_char (m mod 10)"
        by (simp_all add: string_of_nat_big)
      from "1.IH"[OF n e] have "n div 10 = m div 10" .
      moreover from d have "n mod 10 = m mod 10" by (intro digit_char_inj) simp_all
      ultimately show ?thesis by (metis div_mult_mod_eq)
    qed
  qed
qed

lemma leg_key_inj: "leg_key n = leg_key m \<Longrightarrow> n = m"
  by (simp add: leg_key_def string_of_nat_inj)

lemma update_fresh: "k \<notin> fst ` set al \<Longrightarrow> AList.update k v al = al @ [(k, v)]"
  by (induction al) auto

lemma number_legs_eq:
  "fst ` set j \<subseteq> leg_key ` {1..i} \<Longrightarrow>
   number_legs legs n i j = j @ map (\<lambda>k. (leg_key (k + 1), legs ! k)) [i..<n]"
proof (induction legs n i j rule: number_legs.induct)
  case (1 legs amountLegs i journey)
  show ?case
  proof (cases "i < amountLegs")
    case True
    have fresh: "leg_key (i + 1) \<notin> fst ` set journey"
    proof
      assume "leg_key (i + 1) \<in> fst ` set journey"
      with 1(2) obtain k where "k \<in> {1..i}" "leg_key (i + 1) = leg_key k" by auto
      then show False using leg_key_inj by fastforce
    qed
    have sub: "fst ` set (AList.update (leg_key (i + 1)) (legs ! i) journey) \<subseteq> leg_key ` {1..i + 1}"
    proof -
      have "leg_key ` {1..i} \<subseteq> leg_key ` {1..i + 1}" by (intro image_mono) auto
      moreover have "leg_key (i + 1) \<in> leg_key ` {1..i + 1}" by simp
      ultimately show ?thesis using 1(2) by (simp add: AList.dom_update del: atLeastAtMost_iff)
    qed
    show ?thesis
      using "1.IH"[OF True sub] True fresh
      by (subst number_legs.simps) (simp add: update_fresh upt_conv_Cons)
  next
    case False
    then show ?thesis by (subst number_legs.simps) simp
  qed
qed

lemma decode_reads_in_range:
  "length vs mod 7 = 0 \<Longrightarrow> i < length vs div 7 \<Longrightarrow> i * 7 + 6 < length vs"
  by presburger

lemma legs_of_tokens_length: "length vs = 7 * n \<Longrightarrow> length (legs_of_tokens vs) = n"
  using map_leg_at_chunks[of vs n] by (metis length_map length_upt minus_nat.diff_0)

lemma legs_of_tokens_concat:
  "length vs mod 7 = 0 \<Longrightarrow> concat (map leg_fields (legs_of_tokens vs)) = vs"
proof (induction vs rule: legs_of_tokens.induct)
  case (1 a b c d e f g rest)
  then have "length rest mod 7 = 0" by simp
  with 1 show ?case by (simp add: leg_fields_def)
qed simp_all

lemma legs_of_tokens_fields:
  "legs_of_tokens (concat (map leg_fields ls)) = ls"
  by (induction ls) (simp_all add: leg_fields_def)

lemma decode_Encoded:
  "decode (Encoded s) =
     Inr (let tokens = split (CHR '';'') s; n = length tokens div 7 in
          if length tokens mod 7 \<noteq> 0 then []
          else zip (map leg_key [1..<Suc n]) (legs_of_tokens tokens))"
proof -
  define tokens where "tokens = split (CHR '';'') s"
  define n where "n = length tokens div 7"
  show ?thesis
  proof (cases "length tokens mod 7 = 0")
    case False
    then show ?thesis by (simp add: decode_def tokens_def Let_def)
  next
    case True
    then have len: "length tokens = 7 * n" unfolding n_def by presburger
    have legs: "build_legs tokens n 0 [] = legs_of_tokens tokens"
      by (simp add: build_legs_eq map_leg_at_chunks[OF len])
    have ll: "length (legs_of_tokens tokens) = n" by (rule legs_of_tokens_length[OF len])
    have "number_legs (legs_of_tokens tokens) n 0 [] =
            map (\<lambda>k. (leg_key (k + 1), legs_of_tokens tokens ! k)) [0..<n]"
      by (subst number_legs_eq) simp_all
    also have "\<dots> = zip (map leg_key [1..<Suc n]) (legs_of_tokens tokens)"
      using ll by (intro nth_equalityI) (simp_all del: upt_Suc)
    finally show ?thesis
      using True legs by (simp add: decode_def tokens_def[symmetric] n_def[symmetric] Let_def)
  qed
qed

lemma split_join:
  "ts \<noteq> [] \<Longrightarrow> \<forall>t \<in> set ts. sep \<notin> set t \<Longrightarrow> split sep (join sep ts) = ts"
proof (induction ts rule: join.induct)
  case (1 sep)
  then show ?case by simp
next
  case (2 sep t)
  then have "sep \<notin> set t" by simp
  then have "split sep t = [t]" by (induction t) auto
  then show ?case by simp
next
  case (3 sep t u ts)
  then have IH: "split sep (join sep (u # ts)) = u # ts" by simp
  from 3 have "sep \<notin> set t" by simp
  then have "split sep (t @ sep # join sep (u # ts)) = t # split sep (join sep (u # ts))"
    by (induction t) auto
  with IH show ?case by simp
qed

text \<open>
  Claim C5. For every encoded string, \<^verbatim>\<open>decode\<close> returns (it never raises): the
  empty journey when the number of \<^verbatim>\<open>;\<close>-separated tokens is not a multiple of 7,
  and otherwise the legs obtained by cutting the tokens into consecutive groups of 7 in
  the fixed field order, in their order, under the keys \<^verbatim>\<open>leg_1\<close>, ..., \<^verbatim>\<open>leg_n\<close>;
  the groups use up all tokens and there is one leg per group.
\<close>

theorem decode_groups_of_seven:
  "decode (Encoded s) =
     Inr (if length (split (CHR '';'') s) mod 7 \<noteq> 0 then []
          else zip (map leg_key [1..<Suc (length (split (CHR '';'') s) div 7)])
                   (legs_of_tokens (split (CHR '';'') s)))
   \<and> (length (split (CHR '';'') s) mod 7 = 0 \<longrightarrow>
        length (legs_of_tokens (split (CHR '';'') s)) = length (split (CHR '';'') s) div 7
      \<and> concat (map leg_fields (legs_of_tokens (split (CHR '';'') s))) = split (CHR '';'') s)"
proof -
  have "length (split (CHR '';'') s) mod 7 = 0 \<Longrightarrow>
        length (legs_of_tokens (split (CHR '';'') s)) = length (split (CHR '';'') s) div 7"
    by (rule legs_of_tokens_length) presburger
  then show ?thesis
    by (simp add: decode_Encoded Let_def legs_of_tokens_concat)
qed

theorem decode_groups_of_seven_witness:
  "decode (Encoded ''ICE 1;A;10:00;2030-01-01;B;11:00;2030-01-01;RE 2;B;11:10;2030-01-01;C;12:00;2030-01-01'') =
     Inr [(''leg_1'', \<lparr> train = ''ICE 1'', start_stop = ''A'', start_time = ''10:00'',
                        start_date = ''2030-01-01'', arrival_stop = ''B'',
                        arrival_time = ''11:00'', arrival_date = ''2030-01-01'' \<rparr>),
          (''leg_2'', \<lparr> train = ''RE 2'', start_stop = ''B'', start_time = ''11:10'',
                        start_date = ''2030-01-01'', arrival_stop = ''C'',
                        arrival_time = ''12:00'', arrival_date = ''2030-01-01'' \<rparr>)]
   \<and> decode (Encoded ''ICE 1;A;10:00'') = Inr []"
  using decode_groups_of_seven [of "''ICE 1;A;10:00;2030-01-01;B;11:00;2030-01-01;RE 2;B;11:10;2030-01-01;C;12:00;2030-01-01''"]
    decode_groups_of_seven [of "''ICE 1;A;10:00''"]
  by (simp add: leg_key_def string_of_nat_small digit_char_def upt_conv_Cons)

text \<open>
  Claim C9. Decoding is a left inverse of encoding: a journey whose keys are
  \<^verbatim>\<open>leg_1\<close>, ..., \<^verbatim>\<open>leg_n\<close> in this order and whose field values contain no
  \<^verbatim>\<open>;\<close> is returned unchanged by \<^verbatim>\<open>decode\<close> applied to its encoding.
\<close>

theorem decode_encode:
  assumes keys: "map fst j = map leg_key [1..<Suc (length j)]"
    and nosep: "\<forall>(k, l) \<in> set j. \<forall>f \<in> set (leg_fields l). CHR '';'' \<notin> set f"
  shows "decode (Encoded (encode j)) = Inr j"
proof (cases "j = []")
  case True
  then show ?thesis by (simp add: decode_Encoded encode_def)
next
  case False
  define ts where "ts = concat (map leg_fields (map snd j))"
  have enc: "encode j = join (CHR '';'') ts"
    by (simp add: encode_def ts_def case_prod_unfold comp_def)
  have len: "length ts = 7 * length j"
    unfolding ts_def by (induction j) (simp_all add: leg_fields_def)
  from False have ne: "ts \<noteq> []" using len by auto
  have "\<forall>t \<in> set ts. CHR '';'' \<notin> set t"
    using nosep unfolding ts_def by fastforce
  with ne have sp: "split (CHR '';'') (encode j) = ts" by (simp add: enc split_join)
  have legs: "legs_of_tokens ts = map snd j" unfolding ts_def by (rule legs_of_tokens_fields)
  have "zip (map leg_key [1..<Suc (length j)]) (map snd j) = j"
    by (subst keys[symmetric]) (simp add: zip_map_fst_snd)
  then show ?thesis
    by (simp add: decode_Encoded sp len legs Let_def)
qed

theorem decode_encode_witness:
  "decode (Encoded (encode
     [(''leg_1'', \<lparr> train = ''ICE 1'', start_stop = ''A'', start_time = ''10:00'',
                    start_date = ''2030-01-01'', arrival_stop = ''B'',
                    arrival_time = ''11:00'', arrival_date = ''2030-01-01'' \<rparr>),
      (''leg_2'', \<lparr> train = ''RE 2'', start_stop = ''B'', start_time = ''11:10'',
                    start_date = ''2030-01-01'', arrival_stop = ''C'',
                    arrival_time = ''12:00'', arrival_date = ''2030-01-01'' \<rparr>)])) =
   Inr [(''leg_1'', \<lparr> train = ''ICE 1'', start_stop = ''A'', start_time = ''10:00'',
                    start_date = ''2030-01-01'', arrival_stop = ''B'',
                    arrival_time = ''11:00'', arrival_date = ''2030-01-01'' \<rparr>),
        (''leg_2'', \<lparr> train = ''RE 2'', start_stop = ''B'', start_time = ''11:10'',
                    start_date = ''2030-01-01'', arrival_stop = ''C'',
                    arrival_time = ''12:00'', arrival_date = ''2030-01-01'' \<rparr>)]"
  by (rule decode_encode)
     (simp_all add: leg_key_def string_of_nat_small digit_char_def upt_conv_Cons leg_fields_def)

section \<open>Rail replacement, delay and timeframe\<close>

lemma of_char_lt_256: "(of_char c :: nat) < 256"
  by (cases c) (simp add: of_char_def)

lemma lower_char_eq:
  assumes "(of_char x :: nat) \<in> {98, 115, 117}"
  shows "toLowerCase_char c = x \<longleftrightarrow> (of_char c :: nat) = of_char x \<or> (of_char c :: nat) + 32 = of_char x"
proof -
  let ?n = "of_char c :: nat"
  have lt: "?n < 256" by (rule of_char_lt_256)
  show ?thesis
  proof (cases "(65 \<le> ?n \<and> ?n \<le> 90) \<or> (192 \<le> ?n \<and> ?n \<le> 222 \<and> ?n \<noteq> 215)")
    case True
    then have "toLowerCase_char c = char_of (?n + 32)"
      unfolding toLowerCase_char_def Let_def by (rule if_P)
    moreover have "char_of (?n + 32) = x \<longleftrightarrow> ?n + 32 = of_char x"
    proof
      assume "char_of (?n + 32) = x"
      then have "(of_char (char_of (?n + 32)) :: nat) = of_char x" by simp
      then have "(?n + 32) mod 256 = of_char x" by (simp only: of_char_of)
      moreover have "?n + 32 < 256" using True by auto
      ultimately show "?n + 32 = of_char x" by simp
    next
      assume "?n + 32 = of_char x"
      then have "char_of (?n + 32) = char_of (of_char x :: nat)" by simp
      then show "char_of (?n + 32) = x" by (simp only: char_of_char)
    qed
    moreover have "?n \<noteq> of_char x" using True assms by auto
    ultimately show ?thesis by simp
  next
    case False
    then have "toLowerCase_char c = c"
      unfolding toLowerCase_char_def Let_def by (rule if_not_P)
    moreover have "?n + 32 \<noteq> of_char x" using False assms by auto
    ultimately show ?thesis by auto
  qed
qed

lemma lower_b: "toLowerCase_char c = CHR ''b'' \<longleftrightarrow> c \<in> {CHR ''b'', CHR ''B''}"
proof -
  have "c = CHR ''B'' \<longleftrightarrow> (of_char c :: nat) = of_char (CHR ''B'')" by (simp only: of_char_eq_iff)
  moreover have "c = CHR ''b'' \<longleftrightarrow> (of_char c :: nat) = of_char (CHR ''b'')" by (simp only: of_char_eq_iff)
  ultimately show ?thesis using lower_char_eq[of "CHR ''b''" c] by simp
qed

lemma lower_u: "toLowerCase_char c = CHR ''u'' \<longleftrightarrow> c \<in> {CHR ''u'', CHR ''U''}"
proof -
  have "c = CHR ''U'' \<longleftrightarrow> (of_char c :: nat) = of_char (CHR ''U'')" by (simp only: of_char_eq_iff)
  moreover have "c = CHR ''u'' \<longleftrightarrow> (of_char c :: nat) = of_char (CHR ''u'')" by (simp only: of_char_eq_iff)
  ultimately show ?thesis using lower_char_eq[of "CHR ''u''" c] by simp
qed

lemma lower_s: "toLowerCase_char c = CHR ''s'' \<longleftrightarrow> c \<in> {CHR ''s'', CHR ''S''}"
proof -
  have "c = CHR ''S'' \<longleftrightarrow> (of_char c :: nat) = of_char (CHR ''S'')" by (simp only: of_char_eq_iff)
  moreover have "c = CHR ''s'' \<longleftrightarrow> (of_char c :: nat) = of_char (CHR ''s'')" by (simp only: of_char_eq_iff)
  ultimately show ?thesis using lower_char_eq[of "CHR ''s''" c] by simp
qed

lemma startsWith_iff: "startsWith s sub \<longleftrightarrow> (\<exists>post. s = sub @ post)"
  by (induction s sub rule: startsWith.induct) auto

lemma string_includes_iff: "string_includes s sub \<longleftrightarrow> (\<exists>pre post. s = pre @ sub @ post)"
proof (induction s)
  case Nil
  then show ?case by auto
next
  case (Cons c cs)
  show ?case
  proof
    assume "string_includes (c # cs) sub"
    then consider "startsWith (c # cs) sub" | "string_includes cs sub" by auto
    then show "\<exists>pre post. c # cs = pre @ sub @ post"
    proof cases
      case 1
      then obtain post where "c # cs = sub @ post" by (auto simp: startsWith_iff)
      then have "c # cs = [] @ sub @ post" by simp
      then show ?thesis by blast
    next
      case 2
      with Cons obtain pre post where "cs = pre @ sub @ post" by auto
      then have "c # cs = (c # pre) @ sub @ post" by simp
      then show ?thesis by blast
    qed
  next
    assume "\<exists>pre post. c # cs = pre @ sub @ post"
    then obtain pre post where e: "c # cs = pre @ sub @ post" by auto
    show "string_includes (c # cs) sub"
    proof (cases pre)
      case Nil
      with e have "startsWith (c # cs) sub" by (auto simp: startsWith_iff)
      then show ?thesis by simp
    next
      case (Cons p ps)
      with e have "cs = ps @ sub @ post" by simp
      with Cons.IH have "string_includes cs sub" by auto
      then show ?thesis by simp
    qed
  qed
qed

lemma includes_bus_iff: "string_includes (toLowerCase s) ''bus'' \<longleftrightarrow> contains_bus s"
proof
  assume "string_includes (toLowerCase s) ''bus''"
  then obtain pre post where e: "map toLowerCase_char s = pre @ ''bus'' @ post"
    unfolding string_includes_iff toLowerCase_def by blast
  then have "\<exists>us vs. s = us @ vs \<and> pre = map toLowerCase_char us
      \<and> ''bus'' @ post = map toLowerCase_char vs"
    by (rule map_eq_append_conv[THEN iffD1])
  then obtain p r where pr: "s = p @ r" "map toLowerCase_char r = ''bus'' @ post"
    by metis
  from pr(2) have "\<exists>us vs. r = us @ vs \<and> ''bus'' = map toLowerCase_char us
      \<and> post = map toLowerCase_char vs"
    by (rule map_eq_append_conv[THEN iffD1])
  then obtain m q where mq: "r = m @ q" "map toLowerCase_char m = ''bus''"
    by metis
  from mq(2) obtain x y z where m: "m = [x, y, z]"
    and low: "toLowerCase_char x = CHR ''b''" "toLowerCase_char y = CHR ''u''"
      "toLowerCase_char z = CHR ''s''"
    by (auto simp: map_eq_Cons_conv)
  have x: "x \<in> {CHR ''b'', CHR ''B''}" using low(1) by (simp only: lower_b)
  have y: "y \<in> {CHR ''u'', CHR ''U''}" using low(2) by (simp only: lower_u)
  have z: "z \<in> {CHR ''s'', CHR ''S''}" using low(3) by (simp only: lower_s)
  have "s = p @ [x, y, z] @ q" using pr(1) mq(1) m by simp
  with x y z show "contains_bus s"
    unfolding contains_bus_def by blast
next
  assume "contains_bus s"
  then obtain pre x y z post where s: "s = pre @ [x, y, z] @ post"
    and x: "x \<in> {CHR ''b'', CHR ''B''}" and y: "y \<in> {CHR ''u'', CHR ''U''}"
    and z: "z \<in> {CHR ''s'', CHR ''S''}"
    unfolding contains_bus_def by blast
  have "toLowerCase_char x = CHR ''b''" using x by (simp only: lower_b)
  moreover have "toLowerCase_char y = CHR ''u''" using y by (simp only: lower_u)
  moreover have "toLowerCase_char z = CHR ''s''" using z by (simp only: lower_s)
  ultimately have "toLowerCase s = toLowerCase pre @ ''bus'' @ toLowerCase post"
    by (simp add: s toLowerCase_def)
  then show "string_includes (toLowerCase s) ''bus''"
    unfolding string_includes_iff by blast
qed

lemma checkForRps_iff: "checkForRps j \<longleftrightarrow> (\<exists>(k, l) \<in> set j. contains_bus (train l))"
proof (induction j)
  case Nil
  then show ?case by simp
next
  case (Cons p j)
  obtain k l where p: "p = (k, l)" by (cases p)
  show ?case using Cons.IH by (simp add: p includes_bus_iff)
qed

lemma clampDelay_calc:
  "clampDelay (calculateDelayMinutes D (Some s) (Some r)) =
     map_option (\<lambda>r'. max 0 (of_int (r' - s) / 60000))
       (if r < s - 14400000
        then setDate D (Some r) (map_option (\<lambda>date. date + 1) (getDate D (Some r)))
        else Some r)"
  by (simp add: clampDelay_def calculateDelayMinutes_def Let_def max_def split: option.split)

lemma clampDelay_nonneg: "clampDelay d = Some x \<Longrightarrow> 0 \<le> x"
  by (auto simp: clampDelay_def split: option.splits if_splits)

lemma delay_handler_ok:
  assumes "(case body of WithJourney w \<Rightarrow> decode w | Bare obj \<Rightarrow> Inr obj) = Inr journey"
    "journey \<noteq> []" "legMessages journey = []"
    "retrieveArrivalDate D journey = Inr s" "fetch journey = Inr response"
    "retrieveArrivalDate D response = Inr r"
  shows "delay_handler D fetch body =
           Sent (DelayResponse STATUS_OK (clampDelay (calculateDelayMinutes D s r)))"
  using assms by (simp add: delay_handler_def)

text \<open>
  \<^verbatim>\<open>setDate(getDate() + 1)\<close> keeps the local time of day and moves to the next day of
  the local calendar, whatever the month: in UTC that is 86400000 ms later.
\<close>

lemma next_day_local: "with_date t (DateFromTime t + 1) = t + 86400000"
proof -
  have "(t div 86400000 + 1) * 86400000 + t mod 86400000 = t + 86400000"
    by (simp add: algebra_simps)
  then show ?thesis by (simp add: with_date_def DateFromTime_def algebra_simps)
qed

lemma next_day_utc:
  "setDate utc (Some r) (map_option (\<lambda>date. date + 1) (getDate utc (Some r)))
     = Some (r + 86400000)"
  using next_day_local [of r]
  by (simp add: utc_def utc_setDate_def utc_getDate_def)

lemma next_day_zone:
  "setDate (zone offset) (Some r) (map_option (\<lambda>date. date + 1) (getDate (zone offset) (Some r)))
     = Some (UTC offset (LocalTime offset r + 86400000))"
  using next_day_local [of "LocalTime offset r"]
  by (simp add: zone_def zone_setDate_def zone_getDate_def)

lemma UTC_fixed: "\<forall>t. offset t = c \<Longrightarrow> UTC offset (LocalTime offset r + 86400000) = r + 86400000"
  by (simp add: UTC_def LocalTime_def Let_def)

lemma berlin_spring:
  "UTC berlin_2030 (LocalTime berlin_2030 1901142600000 + 86400000) = 1901142600000 + 82800000"
  by (simp add: UTC_def LocalTime_def berlin_2030_def Let_def)

lemma berlin_autumn:
  "UTC berlin_2030 (LocalTime berlin_2030 1919283000000 + 86400000) = 1919283000000 + 90000000"
  by (simp add: UTC_def LocalTime_def berlin_2030_def Let_def)

text \<open>
  Claim C1. For a scheduled arrival instant \<open>s\<close> and an observed arrival instant \<open>r\<close>,
  the delay reported by \<^verbatim>\<open>/delay\<close> is \<open>max 0 ((r' - s) / 60000)\<close> minutes, where
  \<open>r'\<close> is \<open>r\<close> plus one day when \<open>r\<close> is earlier than \<open>s\<close> minus 4 hours and \<open>r\<close>
  otherwise; a scheduled arrival at 23:50 with an observed arrival reported as 00:10 of
  the same day gives 20 minutes; a reported delay is never negative.

  The day is added by \<^verbatim>\<open>setDate(getDate() + 1)\<close>: the same local time on the next day
  of the server's calendar. In a time zone with clock changes that is the instant
  \<open>UTC (LocalTime r + 86400000)\<close>; with a fixed offset to UTC, and in UTC itself, it is
  \<open>r + 86400000\<close>. The example gives 20 minutes in UTC on every day, and in Central
  European Time on the two days of 2030 on which the clock changes between 00:10 and
  23:50, where the added day has 23 and 25 hours. Both branches of \<^verbatim>\<open>/delay\<close>, the
  decoded journey and the journey object, report this delay.
\<close>

theorem delay_minutes:
  "clampDelay (calculateDelayMinutes D (Some s) (Some r)) =
     map_option (\<lambda>r'. max 0 (of_int (r' - s) / 60000))
       (if r < s - 4 * 60 * 60 * 1000
        then setDate D (Some r) (map_option (\<lambda>date. date + 1) (getDate D (Some r)))
        else Some r)
   \<and> setDate (zone offset) (Some r)
         (map_option (\<lambda>date. date + 1) (getDate (zone offset) (Some r)))
       = Some (UTC offset (LocalTime offset r + 86400000))
   \<and> ((\<forall>t. offset t = c) \<longrightarrow>
        clampDelay (calculateDelayMinutes (zone offset) (Some s) (Some r)) =
          Some (max 0 (of_int ((if r < s - 4 * 60 * 60 * 1000 then r + 86400000 else r) - s) / 60000)))
   \<and> clampDelay (calculateDelayMinutes utc (Some s) (Some r)) =
        Some (max 0 (of_int ((if r < s - 4 * 60 * 60 * 1000 then r + 86400000 else r) - s) / 60000))
   \<and> clampDelay (calculateDelayMinutes utc
         (Some (d + (23 * 60 + 50) * 60000)) (Some (d + 10 * 60000))) = Some 20
   \<and> clampDelay (calculateDelayMinutes (zone berlin_2030)
         (Some 1901224200000) (Some 1901142600000)) = Some 20
   \<and> clampDelay (calculateDelayMinutes (zone berlin_2030)
         (Some 1919371800000) (Some 1919283000000)) = Some 20
   \<and> (\<forall>x. clampDelay (calculateDelayMinutes D a b) = Some x \<longrightarrow> 0 \<le> x)
   \<and> ((case body of WithJourney encodedJourney \<Rightarrow> decode encodedJourney | Bare obj \<Rightarrow> Inr obj)
          = Inr journey
        \<and> journey \<noteq> [] \<and> legMessages journey = []
        \<and> retrieveArrivalDate D journey = Inr (Some s) \<and> fetch journey = Inr response
        \<and> retrieveArrivalDate D response = Inr (Some r) \<longrightarrow>
      delay_handler D fetch body =
        Sent (DelayResponse STATUS_OK
          (map_option (\<lambda>r'. max 0 (of_int (r' - s) / 60000))
             (if r < s - 4 * 60 * 60 * 1000
              then setDate D (Some r) (map_option (\<lambda>date. date + 1) (getDate D (Some r)))
              else Some r))))"
proof (intro conjI allI impI)
  show "clampDelay (calculateDelayMinutes D (Some s) (Some r)) =
     map_option (\<lambda>r'. max 0 (of_int (r' - s) / 60000))
       (if r < s - 4 * 60 * 60 * 1000
        then setDate D (Some r) (map_option (\<lambda>date. date + 1) (getDate D (Some r)))
        else Some r)"
    using clampDelay_calc [of D s r] by simp
  show "setDate (zone offset) (Some r)
         (map_option (\<lambda>date. date + 1) (getDate (zone offset) (Some r)))
       = Some (UTC offset (LocalTime offset r + 86400000))"
    by (rule next_day_zone)
  show "clampDelay (calculateDelayMinutes (zone offset) (Some s) (Some r)) =
          Some (max 0 (of_int ((if r < s - 4 * 60 * 60 * 1000 then r + 86400000 else r) - s) / 60000))"
    if "\<forall>t. offset t = c"
    using clampDelay_calc [of "zone offset" s r] UTC_fixed [OF that, of r]
    by (simp add: next_day_zone)
  show "clampDelay (calculateDelayMinutes utc (Some s) (Some r)) =
        Some (max 0 (of_int ((if r < s - 4 * 60 * 60 * 1000 then r + 86400000 else r) - s) / 60000))"
    using clampDelay_calc [of utc s r] by (simp add: next_day_utc)
  show "clampDelay (calculateDelayMinutes utc
         (Some (d + (23 * 60 + 50) * 60000)) (Some (d + 10 * 60000))) = Some 20"
    using clampDelay_calc [of utc "d + (23 * 60 + 50) * 60000" "d + 10 * 60000"]
    by (simp add: next_day_utc)
  show "clampDelay (calculateDelayMinutes (zone berlin_2030)
         (Some 1901224200000) (Some 1901142600000)) = Some 20"
    using clampDelay_calc [of "zone berlin_2030" 1901224200000 1901142600000]
    by (simp add: next_day_zone berlin_spring)
  show "clampDelay (calculateDelayMinutes (zone berlin_2030)
         (Some 1919371800000) (Some 1919283000000)) = Some 20"
    using clampDelay_calc [of "zone berlin_2030" 1919371800000 1919283000000]
    by (simp add: next_day_zone berlin_autumn)
  show "0 \<le> x" if "clampDelay (calculateDelayMinutes D a b) = Some x" for x
    using that by (rule clampDelay_nonneg)
  show "delay_handler D fetch body =
        Sent (DelayResponse STATUS_OK
          (map_option (\<lambda>r'. max 0 (of_int (r' - s) / 60000))
             (if r < s - 4 * 60 * 60 * 1000
              then setDate D (Some r) (map_option (\<lambda>date. date + 1) (getDate D (Some r)))
              else Some r)))"
    if "(case body of WithJourney encodedJourney \<Rightarrow> decode encodedJourney | Bare obj \<Rightarrow> Inr obj)
          = Inr journey
        \<and> journey \<noteq> [] \<and> legMessages journey = []
        \<and> retrieveArrivalDate D journey = Inr (Some s) \<and> fetch journey = Inr response
        \<and> retrieveArrivalDate D response = Inr (Some r)"
    using that clampDelay_calc [of D s r] by (simp add: delay_handler_ok)
qed

lemmas utc_eval = utc_def utc_newDate_def utc_setHours_def utc_setMinutes_def element_def
  is_digit_def days_from_civil_def days_in_month_def Let_def
  leg_key_def string_of_nat_small digit_char_def

lemmas zone_eval = zone_def utc_newDate_def zone_setHours_def zone_setMinutes_def element_def
  is_digit_def days_from_civil_def days_in_month_def Let_def LocalTime_def UTC_def
  with_hours_def with_minutes_def berlin_2030_def leg_key_def string_of_nat_small digit_char_def

lemmas date_eval = DateFromTime_def with_date_def month_start_def day_of_year_def Let_def

theorem delay_minutes_witness:
  "delay_handler utc
     (\<lambda>j. Inr [(''leg_1'', \<lparr> train = ''ICE 1'', start_stop = ''A'', start_time = ''20:00'',
                    start_date = ''2030-01-01'', arrival_stop = ''B'',
                    arrival_time = ''00:10'', arrival_date = ''2030-01-01'' \<rparr>)])
     (Bare [(''leg_1'', \<lparr> train = ''ICE 1'', start_stop = ''A'', start_time = ''20:00'',
                    start_date = ''2030-01-01'', arrival_stop = ''B'',
                    arrival_time = ''23:50'', arrival_date = ''2030-01-01'' \<rparr>)])
   = (Sent (DelayResponse STATUS_OK (Some 20)) :: unit response outcome)
   \<and> delay_handler (zone berlin_2030)
     (\<lambda>j. Inr [(''leg_1'', \<lparr> train = ''ICE 1'', start_stop = ''A'', start_time = ''20:00'',
                    start_date = ''2030-03-31'', arrival_stop = ''B'',
                    arrival_time = ''00:10'', arrival_date = ''2030-03-31'' \<rparr>)])
     (WithJourney (Encoded ''ICE 1;A;20:00;2030-03-31;B;23:50;2030-03-31''))
   = (Sent (DelayResponse STATUS_OK (Some 20)) :: unit response outcome)
   \<and> clampDelay (calculateDelayMinutes (zone (\<lambda>t. 3600000))
        (Some 1893538200000) (Some 1893453000000)) = Some 20"
proof -
  let ?sched = "[(''leg_1'', \<lparr> train = ''ICE 1'', start_stop = ''A'', start_time = ''20:00'',
                    start_date = ''2030-01-01'', arrival_stop = ''B'',
                    arrival_time = ''23:50'', arrival_date = ''2030-01-01'' \<rparr>)]"
  let ?real = "[(''leg_1'', \<lparr> train = ''ICE 1'', start_stop = ''A'', start_time = ''20:00'',
                    start_date = ''2030-01-01'', arrival_stop = ''B'',
                    arrival_time = ''00:10'', arrival_date = ''2030-01-01'' \<rparr>)]"
  let ?sched' = "[(''leg_1'', \<lparr> train = ''ICE 1'', start_stop = ''A'', start_time = ''20:00'',
                    start_date = ''2030-03-31'', arrival_stop = ''B'',
                    arrival_time = ''23:50'', arrival_date = ''2030-03-31'' \<rparr>)]"
  let ?real' = "[(''leg_1'', \<lparr> train = ''ICE 1'', start_stop = ''A'', start_time = ''20:00'',
                    start_date = ''2030-03-31'', arrival_stop = ''B'',
                    arrival_time = ''00:10'', arrival_date = ''2030-03-31'' \<rparr>)]"
  have s: "retrieveArrivalDate utc ?sched = Inr (Some 1893541800000)"
    by (simp add: retrieveArrivalDate_def utc_eval)
  have r: "retrieveArrivalDate utc ?real = Inr (Some 1893456600000)"
    by (simp add: retrieveArrivalDate_def utc_eval)
  have v: "?sched \<noteq> [] \<and> legMessages ?sched = []"
    by (simp add: validateLeg_def time_pattern_def date_pattern_def is_digit_def)
  have n: "setDate utc (Some 1893456600000)
             (map_option (\<lambda>date. date + 1) (getDate utc (Some 1893456600000)))
           = Some 1893543000000"
    by (simp add: utc_def utc_getDate_def utc_setDate_def date_eval)
  have dec: "decode (Encoded ''ICE 1;A;20:00;2030-03-31;B;23:50;2030-03-31'') = Inr ?sched'"
    by (simp add: decode_Encoded leg_key_def string_of_nat_small digit_char_def upt_conv_Cons)
  have s': "retrieveArrivalDate (zone berlin_2030) ?sched' = Inr (Some 1901224200000)"
    by (simp add: retrieveArrivalDate_def zone_eval)
  have r': "retrieveArrivalDate (zone berlin_2030) ?real' = Inr (Some 1901142600000)"
    by (simp add: retrieveArrivalDate_def zone_eval)
  have v': "?sched' \<noteq> [] \<and> legMessages ?sched' = []"
    by (simp add: validateLeg_def time_pattern_def date_pattern_def is_digit_def)
  have n': "setDate (zone berlin_2030) (Some 1901142600000)
             (map_option (\<lambda>date. date + 1) (getDate (zone berlin_2030) (Some 1901142600000)))
           = Some 1901225400000"
    by (simp add: zone_def zone_getDate_def zone_setDate_def date_eval
        LocalTime_def UTC_def berlin_2030_def)
  from delay_minutes [where s = 1893541800000 and r = 1893456600000 and D = utc
      and journey = ?sched and response = ?real and fetch = "\<lambda>j. Inr ?real"
      and body = "Bare ?sched" and offset = "\<lambda>t. 3600000" and c = 3600000
      and d = 0 and a = None and b = None and ?'a = unit] s r v n
  have one: "delay_handler utc (\<lambda>j. Inr ?real) (Bare ?sched)
               = (Sent (DelayResponse STATUS_OK (Some 20)) :: unit response outcome)"
    by simp
  from delay_minutes [where s = 1901224200000 and r = 1901142600000 and D = "zone berlin_2030"
      and journey = ?sched' and response = ?real' and fetch = "\<lambda>j. Inr ?real'"
      and body = "WithJourney (Encoded ''ICE 1;A;20:00;2030-03-31;B;23:50;2030-03-31'')"
      and offset = "\<lambda>t. 3600000" and c = 3600000
      and d = 0 and a = None and b = None and ?'a = unit] dec s' r' v' n'
  have two: "delay_handler (zone berlin_2030) (\<lambda>j. Inr ?real')
               (WithJourney (Encoded ''ICE 1;A;20:00;2030-03-31;B;23:50;2030-03-31''))
               = (Sent (DelayResponse STATUS_OK (Some 20)) :: unit response outcome)"
    by simp
  from delay_minutes [where s = 1893538200000 and r = 1893453000000 and D = utc
      and journey = ?sched and response = ?real and fetch = "\<lambda>j. Inr ?real"
      and body = "Bare ?sched" and offset = "\<lambda>t. 3600000" and c = 3600000
      and d = 0 and a = None and b = None and ?'a = unit]
  have three: "clampDelay (calculateDelayMinutes (zone (\<lambda>t. 3600000))
        (Some 1893538200000) (Some 1893453000000)) = Some 20"
    by simp
  from one two three show ?thesis by simp
qed

lemma checkTimeframe_Some:
  "retrieveDepartureDate D j = Inr (Some depart) \<Longrightarrow>
   checkTimeframe D clock j =
     (if (of_int (depart - clock) :: rat) / 86400000 \<le> 1 \<or> (of_int (depart - clock) :: rat) / 86400000 \<ge> 10
      then Inr (Some True) else Inr None)"
  by (simp add: checkTimeframe_def TIME_MIN_def TIME_MAX_def Let_def)

lemma pipeline_timeframe:
  "j \<noteq> [] \<Longrightarrow> legMessages j @ validateType t = [] \<Longrightarrow>
   checkTimeframe (dates env) (now env) j = Inr (Some True) \<Longrightarrow>
   payouts_pipeline env cache t j = (Sent (PayoutResponse STATUS_TIME Zero), cache)"
  by (simp add: payouts_pipeline_def truthy_def)

text \<open>
  Claim C4. With \<open>diffDays = (departure - now) / 1 day\<close>, the timeframe check reports
  out-of-timeframe exactly when \<open>diffDays \<le> 1\<close> or \<open>diffDays \<ge> 10\<close>, and gives no signal
  inside the window: departures exactly 1 or exactly 10 days away are rejected, 1.5 or
  9.999 days away are accepted; a rejection is answered with status 20 and payout 0.
\<close>

theorem checkTimeframe_window:
  "(retrieveDepartureDate D j = Inr (Some depart) \<longrightarrow>
      checkTimeframe D clock j =
        (if (of_int (depart - clock) :: rat) / 86400000 \<le> 1
            \<or> (of_int (depart - clock) :: rat) / 86400000 \<ge> 10
         then Inr (Some True) else Inr None))
   \<and> (retrieveDepartureDate D j = Inr (Some (clock + 86400000)) \<longrightarrow>
        checkTimeframe D clock j = Inr (Some True))
   \<and> (retrieveDepartureDate D j = Inr (Some (clock + 864000000)) \<longrightarrow>
        checkTimeframe D clock j = Inr (Some True))
   \<and> (retrieveDepartureDate D j = Inr (Some (clock + 129600000)) \<longrightarrow>
        checkTimeframe D clock j = Inr None)
   \<and> (retrieveDepartureDate D j = Inr (Some (clock + 863913600)) \<longrightarrow>
        checkTimeframe D clock j = Inr None)
   \<and> (j \<noteq> [] \<and> legMessages j @ validateType t = []
        \<and> checkTimeframe (dates env) (now env) j = Inr (Some True) \<longrightarrow>
        payouts_pipeline env cache t j = (Sent (PayoutResponse STATUS_TIME Zero), cache))"
proof (intro conjI impI)
  show "checkTimeframe D clock j =
        (if (of_int (depart - clock) :: rat) / 86400000 \<le> 1
            \<or> (of_int (depart - clock) :: rat) / 86400000 \<ge> 10
         then Inr (Some True) else Inr None)"
    if "retrieveDepartureDate D j = Inr (Some depart)"
    using that by (rule checkTimeframe_Some)
  show "checkTimeframe D clock j = Inr (Some True)"
    if "retrieveDepartureDate D j = Inr (Some (clock + 86400000))"
    using checkTimeframe_Some[OF that, of clock] by simp
  show "checkTimeframe D clock j = Inr (Some True)"
    if "retrieveDepartureDate D j = Inr (Some (clock + 864000000))"
    using checkTimeframe_Some[OF that, of clock] by simp
  show "checkTimeframe D clock j = Inr None"
    if "retrieveDepartureDate D j = Inr (Some (clock + 129600000))"
    using checkTimeframe_Some[OF that, of clock] by simp
  show "checkTimeframe D clock j = Inr None"
    if "retrieveDepartureDate D j = Inr (Some (clock + 863913600))"
    using checkTimeframe_Some[OF that, of clock] by simp
  show "payouts_pipeline env cache t j = (Sent (PayoutResponse STATUS_TIME Zero), cache)"
    if "j \<noteq> [] \<and> legMessages j @ validateType t = []
        \<and> checkTimeframe (dates env) (now env) j = Inr (Some True)"
    using that by (simp add: pipeline_timeframe)
qed

theorem checkTimeframe_window_witness:
  "checkTimeframe utc (1893492000000 - 86400000)
     [(''leg_1'', \<lparr> train = ''ICE 1'', start_stop = ''A'', start_time = ''10:00'',
                    start_date = ''2030-01-01'', arrival_stop = ''B'',
                    arrival_time = ''11:00'', arrival_date = ''2030-01-01'' \<rparr>)] = Inr (Some True)
   \<and> checkTimeframe utc (1893492000000 - 129600000)
     [(''leg_1'', \<lparr> train = ''ICE 1'', start_stop = ''A'', start_time = ''10:00'',
                    start_date = ''2030-01-01'', arrival_stop = ''B'',
                    arrival_time = ''11:00'', arrival_date = ''2030-01-01'' \<rparr>)] = Inr None
   \<and> payouts_pipeline \<lparr> dates = utc, now = 1893492000000 - 86400000,
                         predict = (\<lambda>q. Inl UpstreamError), sha256 = (\<lambda>text. text),
                         PAYOUTS = (\<lambda>tier row. Some row) \<rparr>
        Map.empty (Some ''small'')
     [(''leg_1'', \<lparr> train = ''ICE 1'', start_stop = ''A'', start_time = ''10:00'',
                    start_date = ''2030-01-01'', arrival_stop = ''B'',
                    arrival_time = ''11:00'', arrival_date = ''2030-01-01'' \<rparr>)]
       = (Sent (PayoutResponse STATUS_TIME Zero), Map.empty)"
proof -
  let ?j = "[(''leg_1'', \<lparr> train = ''ICE 1'', start_stop = ''A'', start_time = ''10:00'',
                    start_date = ''2030-01-01'', arrival_stop = ''B'',
                    arrival_time = ''11:00'', arrival_date = ''2030-01-01'' \<rparr>)]"
  let ?env = "\<lparr> dates = utc, now = 1893492000000 - 86400000,
                 predict = (\<lambda>q. Inl UpstreamError), sha256 = (\<lambda>text. text),
                         PAYOUTS = (\<lambda>tier row. Some (row :: int)) \<rparr>"
  have dep: "retrieveDepartureDate utc ?j = Inr (Some 1893492000000)"
    by (simp add: retrieveDepartureDate_def utc_eval)
  have v: "?j \<noteq> [] \<and> legMessages ?j @ validateType (Some ''small'') = []"
    by (simp add: validateLeg_def validateType_def time_pattern_def date_pattern_def is_digit_def)
  have a: "checkTimeframe utc (1893492000000 - 86400000) ?j = Inr (Some True)"
    using checkTimeframe_window [where D = utc and j = ?j and clock = "1893492000000 - 86400000"
        and depart = 1893492000000 and env = ?env and t = "Some ''small''" and cache = Map.empty] dep
    by simp
  have b: "checkTimeframe utc (1893492000000 - 129600000) ?j = Inr None"
    using checkTimeframe_window [where D = utc and j = ?j and clock = "1893492000000 - 129600000"
        and depart = 1893492000000 and env = ?env and t = "Some ''small''" and cache = Map.empty] dep
    by simp
  have c: "payouts_pipeline ?env Map.empty (Some ''small'') ?j
             = (Sent (PayoutResponse STATUS_TIME Zero), Map.empty)"
    using checkTimeframe_window [where env = ?env and j = ?j and t = "Some ''small''" and cache = Map.empty
        and D = utc and clock = "1893492000000 - 86400000" and depart = 1893492000000] v a
    by simp
  from a b c show ?thesis by simp
qed

lemma pipeline_rps:
  "j \<noteq> [] \<Longrightarrow> legMessages j @ validateType t = [] \<Longrightarrow>
   checkTimeframe (dates env) (now env) j = Inr None \<Longrightarrow> checkForRps j \<Longrightarrow>
   payouts_pipeline env cache t j = (Sent (PayoutResponse STATUS_SEV Zero), cache)"
  by (simp add: payouts_pipeline_def truthy_def)

text \<open>
  Claim C8. The rail replacement check is true exactly when the train field of at least
  one leg contains "bus" in any mix of cases ("Schienenersatzverkehr Bus 12" and "BUS"
  do, "ICE 123" does not), and false otherwise; a journey with such a leg is answered
  with status 10 and payout 0.
\<close>

theorem checkForRps_bus:
  "checkForRps j = (\<exists>(k, l) \<in> set j. contains_bus (train l))
   \<and> contains_bus ''Schienenersatzverkehr Bus 12'' \<and> contains_bus ''BUS''
   \<and> \<not> contains_bus ''ICE 123''
   \<and> (j \<noteq> [] \<and> legMessages j @ validateType t = []
        \<and> checkTimeframe (dates env) (now env) j = Inr None \<and> checkForRps j \<longrightarrow>
        payouts_pipeline env cache t j = (Sent (PayoutResponse STATUS_SEV Zero), cache))"
proof (intro conjI impI)
  show "checkForRps j = (\<exists>(k, l) \<in> set j. contains_bus (train l))"
    by (rule checkForRps_iff)
  show "contains_bus ''Schienenersatzverkehr Bus 12''"
    unfolding includes_bus_iff[symmetric] by (simp add: toLowerCase_def toLowerCase_char_def char_of_def bit_0)
  show "contains_bus ''BUS''"
    unfolding includes_bus_iff[symmetric] by (simp add: toLowerCase_def toLowerCase_char_def char_of_def bit_0)
  show "\<not> contains_bus ''ICE 123''"
    unfolding includes_bus_iff[symmetric] by (simp add: toLowerCase_def toLowerCase_char_def char_of_def bit_0)
  show "payouts_pipeline env cache t j = (Sent (PayoutResponse STATUS_SEV Zero), cache)"
    if "j \<noteq> [] \<and> legMessages j @ validateType t = []
        \<and> checkTimeframe (dates env) (now env) j = Inr None \<and> checkForRps j"
    using that by (simp add: pipeline_rps)
qed

theorem checkForRps_bus_witness:
  "(\<exists>(k, l) \<in> set [(''leg_1'', \<lparr> train = ''ICE 123'', start_stop = ''A'', start_time = ''10:00'',
                    start_date = ''2030-01-01'', arrival_stop = ''B'',
                    arrival_time = ''11:00'', arrival_date = ''2030-01-01'' \<rparr>),
                (''leg_2'', \<lparr> train = ''Schienenersatzverkehr Bus 12'', start_stop = ''B'',
                    start_time = ''11:10'', start_date = ''2030-01-01'', arrival_stop = ''C'',
                    arrival_time = ''12:00'', arrival_date = ''2030-01-01'' \<rparr>)].
      contains_bus (train l))
   \<and> payouts_pipeline \<lparr> dates = utc, now = 1893492000000 - 129600000,
                         predict = (\<lambda>q. Inl UpstreamError), sha256 = (\<lambda>text. text),
                         PAYOUTS = (\<lambda>tier row. Some row) \<rparr>
        Map.empty (Some ''all'')
        [(''leg_1'', \<lparr> train = ''ICE 123'', start_stop = ''A'', start_time = ''10:00'',
                    start_date = ''2030-01-01'', arrival_stop = ''B'',
                    arrival_time = ''11:00'', arrival_date = ''2030-01-01'' \<rparr>),
         (''leg_2'', \<lparr> train = ''Schienenersatzverkehr Bus 12'', start_stop = ''B'',
                    start_time = ''11:10'', start_date = ''2030-01-01'', arrival_stop = ''C'',
                    arrival_time = ''12:00'', arrival_date = ''2030-01-01'' \<rparr>)]
       = (Sent (PayoutResponse STATUS_SEV Zero), Map.empty)
   \<and> \<not> (\<exists>(k, l) \<in> set [(''leg_1'', \<lparr> train = ''ICE 123'', start_stop = ''A'', start_time = ''10:00'',
                    start_date = ''2030-01-01'', arrival_stop = ''B'',
                    arrival_time = ''11:00'', arrival_date = ''2030-01-01'' \<rparr>)].
      contains_bus (train l))"
proof -
  let ?l1 = "\<lparr> train = ''ICE 123'', start_stop = ''A'', start_time = ''10:00'',
                    start_date = ''2030-01-01'', arrival_stop = ''B'',
                    arrival_time = ''11:00'', arrival_date = ''2030-01-01'' \<rparr>"
  let ?l2 = "\<lparr> train = ''Schienenersatzverkehr Bus 12'', start_stop = ''B'',
                    start_time = ''11:10'', start_date = ''2030-01-01'', arrival_stop = ''C'',
                    arrival_time = ''12:00'', arrival_date = ''2030-01-01'' \<rparr>"
  let ?j = "[(''leg_1'', ?l1), (''leg_2'', ?l2)]"
  let ?env = "\<lparr> dates = utc, now = 1893492000000 - 129600000,
                 predict = (\<lambda>q. Inl UpstreamError), sha256 = (\<lambda>text. text),
                         PAYOUTS = (\<lambda>tier row. Some (row :: int)) \<rparr>"
  have rps: "checkForRps ?j"
    by (simp add: toLowerCase_def toLowerCase_char_def char_of_def bit_0)
  have no: "\<not> checkForRps [(''leg_1'', ?l1)]"
    by (simp add: toLowerCase_def toLowerCase_char_def char_of_def bit_0)
  have v: "?j \<noteq> [] \<and> legMessages ?j @ validateType (Some ''all'') = []"
    by (simp add: validateLeg_def validateType_def time_pattern_def date_pattern_def is_digit_def)
  have tf: "checkTimeframe (dates ?env) (now ?env) ?j = Inr None"
    by (simp add: checkTimeframe_def retrieveDepartureDate_def TIME_MIN_def TIME_MAX_def utc_eval)
  have a: "\<exists>(k, l) \<in> set ?j. contains_bus (train l)"
    using checkForRps_bus [where j = ?j and env = ?env and t = "Some ''all''" and cache = Map.empty] rps by blast
  have b: "payouts_pipeline ?env Map.empty (Some ''all'') ?j
             = (Sent (PayoutResponse STATUS_SEV Zero), Map.empty)"
    using checkForRps_bus [where j = ?j and env = ?env and t = "Some ''all''" and cache = Map.empty]
      v tf rps by blast
  have c: "\<not> (\<exists>(k, l) \<in> set [(''leg_1'', ?l1)]. contains_bus (train l))"
    using checkForRps_bus [where j = "[(''leg_1'', ?l1)]" and env = ?env and t = "Some ''all''" and cache = Map.empty] no by blast
  from a b c show ?thesis by blast
qed

section \<open>Payout pipeline, dispatch, missing legs and fingerprint\<close>

lemma lookupOrRequest_hit:
  "cache (fingerprint (sha256 env) journey) = Some entry \<Longrightarrow>
   lookupOrRequest env cache journey = Inr (entry, cache)"
  by (simp add: lookupOrRequest_def)

lemma lookupOrRequest_matrix:
  "lookupOrRequest (env\<lparr>PAYOUTS := matrix\<rparr>) cache journey = lookupOrRequest env cache journey"
  by (simp add: lookupOrRequest_def Let_def split: option.split)

lemma pipeline_resolve:
  assumes "journey \<noteq> []" "legMessages journey @ validateType t = []"
    "checkTimeframe (dates env) (now env) journey = Inr None" "\<not> checkForRps journey"
    "lookupOrRequest env cache journey = Inr (p, cache')"
  shows "payouts_pipeline env cache t journey = (Sent (resolvePayout (PAYOUTS env) t p), cache')"
  using assms by (simp add: payouts_pipeline_def truthy_def)

lemma validateType_Some: "validateType t = [] \<Longrightarrow> \<exists>tier. t = Some tier"
  by (cases t) (simp_all add: validateType_def)

text \<open>
  Claim C2. In the \<^verbatim>\<open>/payouts\<close> pipeline, with the probability \<open>p\<close> obtained from the
  cache or from the probability client: when \<open>p\<close> is greater than 40 the response is
  status 30 with payout 0, whatever the matrix holds (no lookup takes place); when \<open>p\<close> is
  at most 40, also exactly 40, the pipeline goes on to the payout and answers with
  status 0. The comparison is made on \<open>p\<close> itself, before \<^verbatim>\<open>Math.ceil\<close>.
\<close>

theorem probability_cap:
  assumes "journey \<noteq> []" and "legMessages journey @ validateType t = []"
    and "checkTimeframe (dates env) (now env) journey = Inr None"
    and "\<not> checkForRps journey"
    and "lookupOrRequest env cache journey = Inr (p, cache')"
  shows "(p > 40 \<longrightarrow>
           (\<forall>matrix. payouts_pipeline (env\<lparr>PAYOUTS := matrix\<rparr>) cache t journey =
              (Sent (PayoutResponse STATUS_PROBABILITY Zero), cache')))
       \<and> (p \<le> 40 \<longrightarrow>
           (\<exists>payout. payouts_pipeline env cache t journey =
              (Sent (PayoutResponse STATUS_OK payout), cache')))
       \<and> (p = 40 \<longrightarrow>
           payouts_pipeline env cache t journey \<noteq>
              (Sent (PayoutResponse STATUS_PROBABILITY Zero), cache'))
       \<and> (p = 4001 / 100 \<longrightarrow>
           payouts_pipeline env cache t journey =
              (Sent (PayoutResponse STATUS_PROBABILITY Zero), cache'))"
proof (intro conjI impI allI)
  fix matrix
  assume hi: "p > 40"
  have "payouts_pipeline (env\<lparr>PAYOUTS := matrix\<rparr>) cache t journey =
          (Sent (resolvePayout matrix t p), cache')"
    using assms pipeline_resolve [of journey t "env\<lparr>PAYOUTS := matrix\<rparr>" cache p cache']
    by (simp add: lookupOrRequest_matrix)
  with hi show "payouts_pipeline (env\<lparr>PAYOUTS := matrix\<rparr>) cache t journey =
          (Sent (PayoutResponse STATUS_PROBABILITY Zero), cache')"
    by (simp add: resolvePayout_def)
next
  assume "p \<le> 40"
  then show "\<exists>payout. payouts_pipeline env cache t journey =
              (Sent (PayoutResponse STATUS_OK payout), cache')"
    using pipeline_resolve [OF assms] by (simp add: resolvePayout_def Let_def)
next
  assume "p = 40"
  then show "payouts_pipeline env cache t journey \<noteq>
              (Sent (PayoutResponse STATUS_PROBABILITY Zero), cache')"
    using pipeline_resolve [OF assms]
    by (simp add: resolvePayout_def Let_def STATUS_OK_def STATUS_PROBABILITY_def)
next
  assume "p = 4001 / 100"
  then show "payouts_pipeline env cache t journey =
              (Sent (PayoutResponse STATUS_PROBABILITY Zero), cache')"
    using pipeline_resolve [OF assms] by (simp add: resolvePayout_def)
qed

text \<open>
  Claim C3. For an accepted probability \<open>p \<le> 40\<close> and the requested tier, the response has
  status 0 and its payout is the matrix entry of the tier at row \<open>\<lceil>p\<rceil>\<close> (12.3 reads
  row 13); for the type \<^verbatim>\<open>all\<close> the payout gives, for small, medium and large, the
  entry at that same row. The entry is read as it is.
\<close>

theorem payout_lookup:
  assumes "journey \<noteq> []" and "legMessages journey @ validateType t = []"
    and "checkTimeframe (dates env) (now env) journey = Inr None"
    and "\<not> checkForRps journey"
    and "lookupOrRequest env cache journey = Inr (p, cache')"
    and "p \<le> 40"
  shows "(\<exists>tier. t = Some tier)
       \<and> (\<forall>tier. t = Some tier \<and> tier \<noteq> ''all'' \<longrightarrow>
            payouts_pipeline env cache t journey =
              (Sent (PayoutResponse STATUS_OK (Amount (PAYOUTS env tier \<lceil>p\<rceil>))), cache'))
       \<and> (t = Some ''all'' \<longrightarrow>
            payouts_pipeline env cache t journey =
              (Sent (PayoutResponse STATUS_OK
                 (PerTier (PAYOUTS env ''small'' \<lceil>p\<rceil>) (PAYOUTS env ''medium'' \<lceil>p\<rceil>)
                          (PAYOUTS env ''large'' \<lceil>p\<rceil>))), cache'))
       \<and> (p = 123 / 10 \<longrightarrow> \<lceil>p\<rceil> = 13)"
proof (intro conjI impI allI)
  from assms(2) show "\<exists>tier. t = Some tier" by (simp add: validateType_Some)
next
  fix tier
  assume "t = Some tier \<and> tier \<noteq> ''all''"
  with assms(6) show "payouts_pipeline env cache t journey =
      (Sent (PayoutResponse STATUS_OK (Amount (PAYOUTS env tier \<lceil>p\<rceil>))), cache')"
    using pipeline_resolve [OF assms(1-5)]
    by (simp add: resolvePayout_def Let_def property_key_def)
next
  assume "t = Some ''all''"
  with assms(6) show "payouts_pipeline env cache t journey =
      (Sent (PayoutResponse STATUS_OK
         (PerTier (PAYOUTS env ''small'' \<lceil>p\<rceil>) (PAYOUTS env ''medium'' \<lceil>p\<rceil>)
                  (PAYOUTS env ''large'' \<lceil>p\<rceil>))), cache')"
    using pipeline_resolve [OF assms(1-5)]
    by (simp add: resolvePayout_def Let_def)
next
  assume "p = 123 / 10"
  then show "\<lceil>p\<rceil> = 13" by (simp add: ceiling_unique)
qed

theorem probability_cap_witness:
  "fst (payouts_pipeline
     \<lparr> dates = utc, now = 1893492000000 - 129600000,
       predict = (\<lambda>q. Inr (4001 / 10000)), sha256 = (\<lambda>text. text),
       PAYOUTS = (\<lambda>tier row. Some row) \<rparr>
     Map.empty (Some ''small'')
     [(''leg_1'', \<lparr> train = ''ICE 1'', start_stop = ''A'', start_time = ''10:00'',
                    start_date = ''2030-01-01'', arrival_stop = ''B'',
                    arrival_time = ''11:00'', arrival_date = ''2030-01-01'' \<rparr>)])
   = Sent (PayoutResponse STATUS_PROBABILITY Zero)"
proof -
  let ?j = "[(''leg_1'', \<lparr> train = ''ICE 1'', start_stop = ''A'', start_time = ''10:00'',
                    start_date = ''2030-01-01'', arrival_stop = ''B'',
                    arrival_time = ''11:00'', arrival_date = ''2030-01-01'' \<rparr>)]"
  let ?env = "\<lparr> dates = utc, now = 1893492000000 - 129600000,
       predict = (\<lambda>q. Inr (4001 / 10000)), sha256 = (\<lambda>text. text),
       PAYOUTS = (\<lambda>tier row. Some (row :: int)) \<rparr>"
  let ?cache = "(Map.empty :: cache)(fingerprint (\<lambda>text. text) ?j \<mapsto> 4001 / 100)"
  have ne: "?j \<noteq> []" by simp
  have v: "legMessages ?j @ validateType (Some ''small'') = []"
    by (simp add: validateLeg_def validateType_def time_pattern_def date_pattern_def is_digit_def)
  have tf: "checkTimeframe (dates ?env) (now ?env) ?j = Inr None"
    by (simp add: checkTimeframe_def retrieveDepartureDate_def TIME_MIN_def TIME_MAX_def utc_eval)
  have rps: "\<not> checkForRps ?j"
    by (simp add: toLowerCase_def toLowerCase_char_def char_of_def bit_0)
  have "\<lfloor>8003 / 2 :: rat\<rfloor> = 4001" by (rule floor_unique) simp_all
  then have fx: "toFixed2 (4001 / 10000 * 100) = 4001 / 100" by (simp add: toFixed2_def)
  have look: "lookupOrRequest ?env Map.empty ?j = Inr (4001 / 100, ?cache)"
    by (simp add: lookupOrRequest_def requestProbability_def retrieveDepartureDate_def
        utc_eval fx del: times_divide_eq_left times_divide_eq_right)
  have "4001 / 100 > (40 :: rat)" by simp
  with probability_cap [OF ne v tf rps look]
  have "payouts_pipeline (?env\<lparr>PAYOUTS := PAYOUTS ?env\<rparr>) Map.empty (Some ''small'') ?j =
          (Sent (PayoutResponse STATUS_PROBABILITY Zero), ?cache)"
    by blast
  then show ?thesis by simp
qed

theorem payout_lookup_witness:
  "fst (payouts_pipeline
     \<lparr> dates = utc, now = 1893492000000 - 129600000,
       predict = (\<lambda>q. Inr (123 / 1000)), sha256 = (\<lambda>text. text),
       PAYOUTS = (\<lambda>tier row. Some (tier, row)) \<rparr>
     Map.empty (Some ''all'')
     [(''leg_1'', \<lparr> train = ''ICE 1'', start_stop = ''A'', start_time = ''10:00'',
                    start_date = ''2030-01-01'', arrival_stop = ''B'',
                    arrival_time = ''11:00'', arrival_date = ''2030-01-01'' \<rparr>)])
   = Sent (PayoutResponse STATUS_OK
       (PerTier (Some (''small'', 13)) (Some (''medium'', 13)) (Some (''large'', 13))))"
proof -
  let ?j = "[(''leg_1'', \<lparr> train = ''ICE 1'', start_stop = ''A'', start_time = ''10:00'',
                    start_date = ''2030-01-01'', arrival_stop = ''B'',
                    arrival_time = ''11:00'', arrival_date = ''2030-01-01'' \<rparr>)]"
  let ?env = "\<lparr> dates = utc, now = 1893492000000 - 129600000,
       predict = (\<lambda>q. Inr (123 / 1000)), sha256 = (\<lambda>text. text),
       PAYOUTS = (\<lambda>tier row. Some (tier :: string, row :: int)) \<rparr>"
  let ?cache = "(Map.empty :: cache)(fingerprint (\<lambda>text. text) ?j \<mapsto> 123 / 10)"
  have ne: "?j \<noteq> []" by simp
  have v: "legMessages ?j @ validateType (Some ''all'') = []"
    by (simp add: validateLeg_def validateType_def time_pattern_def date_pattern_def is_digit_def)
  have tf: "checkTimeframe (dates ?env) (now ?env) ?j = Inr None"
    by (simp add: checkTimeframe_def retrieveDepartureDate_def TIME_MIN_def TIME_MAX_def utc_eval)
  have rps: "\<not> checkForRps ?j"
    by (simp add: toLowerCase_def toLowerCase_char_def char_of_def bit_0)
  have "\<lfloor>2461 / 2 :: rat\<rfloor> = 1230" by (rule floor_unique) simp_all
  then have fx: "toFixed2 (123 / 1000 * 100) = 123 / 10" by (simp add: toFixed2_def)
  have look: "lookupOrRequest ?env Map.empty ?j = Inr (123 / 10, ?cache)"
    by (simp add: lookupOrRequest_def requestProbability_def retrieveDepartureDate_def
        utc_eval fx del: times_divide_eq_left times_divide_eq_right)
  have le: "123 / 10 \<le> (40 :: rat)" by simp
  have c: "\<lceil>123 / 10 :: rat\<rceil> = 13" by (simp add: ceiling_unique)
  from payout_lookup [OF ne v tf rps look le]
  have "payouts_pipeline ?env Map.empty (Some ''all'') ?j =
      (Sent (PayoutResponse STATUS_OK
         (PerTier (PAYOUTS ?env ''small'' \<lceil>123 / 10 :: rat\<rceil>)
                  (PAYOUTS ?env ''medium'' \<lceil>123 / 10 :: rat\<rceil>)
                  (PAYOUTS ?env ''large'' \<lceil>123 / 10 :: rat\<rceil>))), ?cache)"
    by blast
  then show ?thesis by (simp add: c)
qed

lemma decode_Structured: "decode (Structured j) = Inl TypeError"
  by (simp add: decode_def)

lemma decode_Encoded_Inr: "\<exists>j. decode (Encoded s) = Inr j"
  by (simp add: decode_def Let_def)

text \<open>
  Claim C10. Whether the \<^verbatim>\<open>journey\<close> field of a \<^verbatim>\<open>/payouts\<close> request is decoded is
  decided by the \<^verbatim>\<open>type\<close> field alone: it is decoded exactly when the type is not
  \<^verbatim>\<open>all\<close> and used as it is exactly when the type is \<^verbatim>\<open>all\<close>; a structured
  journey sent with another type is handed to the decoder, which throws.
\<close>

theorem journey_dispatch:
  "((selectJourney body = Inr (bjourney body)) = (btype body = Some ''all''))
   \<and> ((selectJourney body =
          (case decode (bjourney body) of Inl e \<Rightarrow> Inl e | Inr j \<Rightarrow> Inr (Structured j)))
        = (btype body \<noteq> Some ''all''))
   \<and> (btype body \<noteq> Some ''all'' \<and> bjourney body = Structured j \<longrightarrow>
        payouts_handler env cache body = (Unhandled TypeError, cache))
   \<and> (btype body = Some ''all'' \<and> bjourney body = Structured j \<longrightarrow>
        payouts_handler env cache body = payouts_pipeline env cache (btype body) j)
   \<and> (btype body \<noteq> Some ''all'' \<and> bjourney body = Encoded s \<longrightarrow>
        (\<exists>d. decode (Encoded s) = Inr d
           \<and> payouts_handler env cache body = payouts_pipeline env cache (btype body) d))"
proof (intro conjI impI)
  show "(selectJourney body = Inr (bjourney body)) = (btype body = Some ''all'')"
  proof (cases "bjourney body")
    case (Encoded s)
    obtain d where "decode (Encoded s) = Inr d" using decode_Encoded_Inr by blast
    with Encoded show ?thesis by (simp add: selectJourney_def)
  next
    case (Structured j)
    then show ?thesis by (simp add: selectJourney_def decode_Structured)
  qed
  show "(selectJourney body =
          (case decode (bjourney body) of Inl e \<Rightarrow> Inl e | Inr j \<Rightarrow> Inr (Structured j)))
        = (btype body \<noteq> Some ''all'')"
  proof (cases "bjourney body")
    case (Encoded s)
    obtain d where "decode (Encoded s) = Inr d" using decode_Encoded_Inr by blast
    with Encoded show ?thesis by (simp add: selectJourney_def)
  next
    case (Structured j)
    then show ?thesis by (simp add: selectJourney_def decode_Structured)
  qed
  show "payouts_handler env cache body = (Unhandled TypeError, cache)"
    if "btype body \<noteq> Some ''all'' \<and> bjourney body = Structured j"
    using that by (simp add: payouts_handler_def selectJourney_def decode_Structured)
  show "payouts_handler env cache body = payouts_pipeline env cache (btype body) j"
    if "btype body = Some ''all'' \<and> bjourney body = Structured j"
    using that by (simp add: payouts_handler_def selectJourney_def)
  show "\<exists>d. decode (Encoded s) = Inr d
           \<and> payouts_handler env cache body = payouts_pipeline env cache (btype body) d"
    if "btype body \<noteq> Some ''all'' \<and> bjourney body = Encoded s"
  proof -
    obtain d where d: "decode (Encoded s) = Inr d" using decode_Encoded_Inr by blast
    with that have "payouts_handler env cache body = payouts_pipeline env cache (btype body) d"
      by (simp add: payouts_handler_def selectJourney_def)
    with d show ?thesis by blast
  qed
qed

theorem journey_dispatch_witness:
  "payouts_handler
     \<lparr> dates = utc, now = 0, predict = (\<lambda>q. Inl UpstreamError), sha256 = (\<lambda>text. text),
       PAYOUTS = (\<lambda>tier row. Some row) \<rparr>
     Map.empty
     \<lparr> btype = Some ''small'',
       bjourney = Structured
         [(''leg_1'', \<lparr> train = ''ICE 1'', start_stop = ''A'', start_time = ''10:00'',
                        start_date = ''2030-01-01'', arrival_stop = ''B'',
                        arrival_time = ''11:00'', arrival_date = ''2030-01-01'' \<rparr>)] \<rparr>
   = (Unhandled TypeError, Map.empty)
   \<and> selectJourney \<lparr> btype = Some ''all'', bjourney = Encoded ''ICE 1;A'' \<rparr>
       = Inr (Encoded ''ICE 1;A'')"
proof -
  let ?j = "[(''leg_1'', \<lparr> train = ''ICE 1'', start_stop = ''A'', start_time = ''10:00'',
                        start_date = ''2030-01-01'', arrival_stop = ''B'',
                        arrival_time = ''11:00'', arrival_date = ''2030-01-01'' \<rparr>)]"
  let ?env = "\<lparr> dates = utc, now = 0, predict = (\<lambda>q. Inl UpstreamError),
                 sha256 = (\<lambda>text. text), PAYOUTS = (\<lambda>tier row. Some (row :: int)) \<rparr>"
  let ?b1 = "\<lparr> btype = Some ''small'', bjourney = Structured ?j \<rparr>"
  let ?b2 = "\<lparr> btype = Some ''all'', bjourney = Encoded ''ICE 1;A'' \<rparr>"
  have h1: "btype ?b1 \<noteq> Some ''all'' \<and> bjourney ?b1 = Structured ?j" by simp
  have a: "payouts_handler ?env Map.empty ?b1 = (Unhandled TypeError, Map.empty)"
    using journey_dispatch [where body = ?b1 and j = ?j and env = ?env and cache = Map.empty
        and s = "''x''"] h1
    by blast
  have h2: "btype ?b2 = Some ''all''" by simp
  have b: "selectJourney ?b2 = Inr (bjourney ?b2)"
    using journey_dispatch [where body = ?b2 and j = ?j and env = ?env and cache = Map.empty
        and s = "''x''"] h2
    by blast
  from a b show ?thesis by simp
qed

text \<open>
  Claim C6. A journey that lacks the expected leg is to end in the generic failure
  response of the endpoint. The handlers run on such journeys: \<^verbatim>\<open>/delay\<close> and
  \<^verbatim>\<open>/payouts\<close> with the single key \<^verbatim>\<open>leg_2\<close> let the exception
  \<^verbatim>\<open>Missing Data\<close> leave the handler and send nothing, whereas a missing last leg met
  inside \<^verbatim>\<open>requestProbability\<close> (keys \<^verbatim>\<open>leg_1\<close> and \<^verbatim>\<open>leg_3\<close>) is caught and
  answered with status 100.
\<close>

theorem missing_leg_unhandled:
  "delay_handler D fetch
     (Bare [(''leg_2'', \<lparr> train = ''ICE 1'', start_stop = ''A'', start_time = ''10:00'',
                          start_date = ''2030-01-01'', arrival_stop = ''B'',
                          arrival_time = ''11:00'', arrival_date = ''2030-01-01'' \<rparr>)])
     = Unhandled MissingData
   \<and> fst (payouts_handler env cache
       \<lparr> btype = Some ''all'',
         bjourney = Structured
           [(''leg_2'', \<lparr> train = ''ICE 1'', start_stop = ''A'', start_time = ''10:00'',
                          start_date = ''2030-01-01'', arrival_stop = ''B'',
                          arrival_time = ''11:00'', arrival_date = ''2030-01-01'' \<rparr>)] \<rparr>)
     = Unhandled MissingData
   \<and> fst (payouts_handler
       \<lparr> dates = utc, now = 1893492000000 - 129600000,
         predict = (\<lambda>q. Inr (1 / 4)), sha256 = (\<lambda>text. text),
         PAYOUTS = (\<lambda>tier row. Some row) \<rparr>
       Map.empty
       \<lparr> btype = Some ''all'',
         bjourney = Structured
           [(''leg_1'', \<lparr> train = ''ICE 1'', start_stop = ''A'', start_time = ''10:00'',
                          start_date = ''2030-01-01'', arrival_stop = ''B'',
                          arrival_time = ''11:00'', arrival_date = ''2030-01-01'' \<rparr>),
            (''leg_3'', \<lparr> train = ''ICE 1'', start_stop = ''A'', start_time = ''10:00'',
                          start_date = ''2030-01-01'', arrival_stop = ''B'',
                          arrival_time = ''11:00'', arrival_date = ''2030-01-01'' \<rparr>)] \<rparr>)
     = Sent (PayoutResponse STATUS_ERROR Zero)"
proof (intro conjI)
  let ?l = "\<lparr> train = ''ICE 1'', start_stop = ''A'', start_time = ''10:00'',
              start_date = ''2030-01-01'', arrival_stop = ''B'',
              arrival_time = ''11:00'', arrival_date = ''2030-01-01'' \<rparr>"
  have v: "validateLeg ?l = []"
    by (simp add: validateLeg_def time_pattern_def date_pattern_def is_digit_def)
  show "delay_handler D fetch (Bare [(''leg_2'', ?l)]) = Unhandled MissingData"
    by (simp add: delay_handler_def v retrieveArrivalDate_def leg_key_def string_of_nat_small
        digit_char_def)
  show "fst (payouts_handler env cache
       \<lparr> btype = Some ''all'', bjourney = Structured [(''leg_2'', ?l)] \<rparr>)
     = Unhandled MissingData"
    by (simp add: payouts_handler_def selectJourney_def payouts_pipeline_def v validateType_def
        checkTimeframe_def retrieveDepartureDate_def)
  let ?env = "\<lparr> dates = utc, now = 1893492000000 - 129600000,
         predict = (\<lambda>q. Inr (1 / 4)), sha256 = (\<lambda>text. text),
         PAYOUTS = (\<lambda>tier row. Some (row :: int)) \<rparr>"
  let ?j = "[(''leg_1'', ?l), (''leg_3'', ?l)]"
  have tf: "checkTimeframe (dates ?env) (now ?env) ?j = Inr None"
    by (simp add: checkTimeframe_def retrieveDepartureDate_def TIME_MIN_def TIME_MAX_def utc_eval)
  have rps: "\<not> checkForRps ?j"
    by (simp add: toLowerCase_def toLowerCase_char_def char_of_def bit_0)
  have look: "lookupOrRequest ?env Map.empty ?j = Inl TypeError"
    by (simp add: lookupOrRequest_def requestProbability_def leg_key_def string_of_nat_small
        digit_char_def)
  show "fst (payouts_handler ?env Map.empty \<lparr> btype = Some ''all'', bjourney = Structured ?j \<rparr>)
     = Sent (PayoutResponse STATUS_ERROR Zero)"
    using tf rps look
    by (simp add: payouts_handler_def selectJourney_def payouts_pipeline_def v validateType_def
        truthy_def)
qed





end
